theory Spec2Isabelle
  imports Main
begin

section \<open>JavaScript values\<close>

text \<open>
  The stories module (\<^verbatim>\<open>lib/api/src/modules/stories\<close>) works on plain JavaScript data: the
  hierarchy mapping is an object from identifiers to entry objects, entries are compared and
  merged field by field, and booleans are read off values by truthiness. Values are
  embedded as a datatype. Numbers are the integers (the module only produces the depth
  indices of a chain). A string is a list of code units.

  A \<^verbatim>\<open>RegExp\<close> is embedded by what \<^verbatim>\<open>String.prototype.split\<close> asks of it: \<open>exec r S q\<close> is
  the sticky match of the pattern in \<open>S\<close> at position \<open>q\<close>, either \<open>None\<close> (no match starts
  at \<open>q\<close>) or \<open>Some (n, caps)\<close>, a match of the \<open>n\<close> code units from \<open>q\<close> on with the
  values \<open>caps\<close> of its capture groups (\<open>None\<close> is \<^verbatim>\<open>undefined\<close>). \<open>pattern\<close> is the text
  \<^verbatim>\<open>/source/flags\<close> of the expression.

  An object is the list of its own enumerable properties in the order \<^verbatim>\<open>Object.keys\<close>
  enumerates them. Besides them an object has the members it inherits from
  \<^verbatim>\<open>Object.prototype\<close>, which are built-in functions: \<open>JFunction f\<close> is the built-in function
  of the name \<open>f\<close>, a truthy object without enumerable properties.
\<close>

datatype RegExp = RegExp (pattern: string) (exec: "string \<Rightarrow> nat \<Rightarrow> (nat \<times> string option list) option")

datatype jsval =
    JUndefined
  | JNull
  | JBool bool
  | JNum int
  | JStr string
  | JRegExp RegExp "(string \<times> jsval) list"
  | JArr "jsval list"
  | JObj "(string \<times> jsval) list"
  | JFunction string

type_synonym obj = "(string \<times> jsval) list"

datatype error = TypeError

text \<open>Truthiness, as \<^verbatim>\<open>!!v\<close>, \<^verbatim>\<open>v && ...\<close> and \<^verbatim>\<open>v || ...\<close> read it.\<close>

fun truthy :: "jsval \<Rightarrow> bool" where
  "truthy JUndefined = False"
| "truthy JNull = False"
| "truthy (JBool b) = b"
| "truthy (JNum n) = (n \<noteq> 0)"
| "truthy (JStr s) = (s \<noteq> [])"
| "truthy (JRegExp r ps) = True"
| "truthy (JArr xs) = True"
| "truthy (JObj ps) = True"
| "truthy (JFunction f) = True"

text \<open>\<^verbatim>\<open>v === undefined\<close>, \<^verbatim>\<open>v == null\<close>, and \<^verbatim>\<open>v === s\<close> for a string \<open>s\<close>.\<close>

fun isUndefined :: "jsval \<Rightarrow> bool" where
  "isUndefined JUndefined = True"
| "isUndefined v = False"

fun isNullish :: "jsval \<Rightarrow> bool" where
  "isNullish JUndefined = True"
| "isNullish JNull = True"
| "isNullish v = False"

fun isString :: "jsval \<Rightarrow> string \<Rightarrow> bool" where
  "isString (JStr t) s = (t = s)"
| "isString v s = False"

text \<open>An optional string (\<open>None\<close> is \<^verbatim>\<open>undefined\<close>) is truthy when it is a non-empty string.\<close>

fun truthyStr :: "string option \<Rightarrow> bool" where
  "truthyStr None = False"
| "truthyStr (Some s) = (s \<noteq> [])"

subsection \<open>Decimal numerals and array indices\<close>

definition digitChars :: string where
  "digitChars = ''0123456789''"

fun natOfDigits :: "nat \<Rightarrow> string \<Rightarrow> nat" where
  "natOfDigits acc [] = acc"
| "natOfDigits acc (c # cs) = natOfDigits (10 * acc + (of_char c - 48)) cs"

function stringOfNat :: "nat \<Rightarrow> string" where
  "stringOfNat n = (if n < 10 then [digitChars ! n] else stringOfNat (n div 10) @ [digitChars ! (n mod 10)])"
  by pat_completeness auto
termination
  by (relation "measure (\<lambda>n. n)") auto

definition stringOfInt :: "int \<Rightarrow> string" where
  "stringOfInt i = (if i < 0 then CHR ''-'' # stringOfNat (nat (- i)) else stringOfNat (nat i))"

text \<open>
  A property key is an array index when it is the canonical decimal numeral of an integer
  below \<open>2^32 - 1\<close>. \<^verbatim>\<open>Object.keys\<close>, \<^verbatim>\<open>Object.values\<close>, \<^verbatim>\<open>Object.entries\<close>, \<^verbatim>\<open>for ... in\<close>
  and object spread enumerate the array indices first, in ascending numeric order, and
  then the other string keys in the order of their creation.
\<close>

definition isArrayIndex :: "string \<Rightarrow> bool" where
  "isArrayIndex k =
     (k \<noteq> [] \<and> list_all (\<lambda>c. c \<in> set digitChars) k \<and> (hd k \<noteq> CHR ''0'' \<or> k = ''0'')
      \<and> natOfDigits 0 k < 4294967295)"

definition keyPrecedes :: "string \<Rightarrow> string \<Rightarrow> bool" where
  "keyPrecedes k k' =
     (if isArrayIndex k then (if isArrayIndex k' then natOfDigits 0 k < natOfDigits 0 k' else True)
      else False)"

subsection \<open>Property access\<close>

fun hasKey :: "(string \<times> 'a) list \<Rightarrow> string \<Rightarrow> bool" where
  "hasKey [] k = False"
| "hasKey ((k', v) # ps) k = (if k' = k then True else hasKey ps k)"

fun lookupKey :: "obj \<Rightarrow> string \<Rightarrow> jsval" where
  "lookupKey [] k = JUndefined"
| "lookupKey ((k', v) # ps) k = (if k' = k then v else lookupKey ps k)"

fun replaceKey :: "(string \<times> 'a) list \<Rightarrow> string \<Rightarrow> 'a \<Rightarrow> (string \<times> 'a) list" where
  "replaceKey [] k v = []"
| "replaceKey ((k', v') # ps) k v = (if k' = k then (k, v) # ps else (k', v') # replaceKey ps k v)"

fun insertKey :: "(string \<times> 'a) list \<Rightarrow> string \<Rightarrow> 'a \<Rightarrow> (string \<times> 'a) list" where
  "insertKey [] k v = [(k, v)]"
| "insertKey ((k', v') # ps) k v =
     (if keyPrecedes k k' then (k, v) # (k', v') # ps else (k', v') # insertKey ps k v)"

text \<open>\<^verbatim>\<open>o[k] = v\<close> on an object: an existing property keeps its place, a new one is created.\<close>

definition setKey :: "(string \<times> 'a) list \<Rightarrow> string \<Rightarrow> 'a \<Rightarrow> (string \<times> 'a) list" where
  "setKey ps k v = (if hasKey ps k then replaceKey ps k v else insertKey ps k v)"

text \<open>\<^verbatim>\<open>xs[i]\<close> on an array, \<^verbatim>\<open>undefined\<close> out of range (also for a negative index).\<close>

definition nthJs :: "jsval list \<Rightarrow> int \<Rightarrow> jsval" where
  "nthJs xs i = (if 0 \<le> i \<and> i < int (length xs) then xs ! nat i else JUndefined)"

text \<open>\<^verbatim>\<open>xs[i] = v\<close> on an array: beyond the end the array is extended.\<close>

definition setNth :: "jsval list \<Rightarrow> nat \<Rightarrow> jsval \<Rightarrow> jsval list" where
  "setNth xs i v = (if i < length xs then xs[i := v] else xs @ replicate (i - length xs) JUndefined @ [v])"

subsection \<open>Members inherited from Object.prototype\<close>

text \<open>
  The names of the members of \<^verbatim>\<open>Object.prototype\<close>. An object literal, the result of
  \<^verbatim>\<open>mergeWith({}, ...)\<close> and the empty object \<^verbatim>\<open>{}\<close> the mapping is built from have
  \<^verbatim>\<open>Object.prototype\<close> as their prototype, so for each of these names \<open>k\<close> the expression
  \<^verbatim>\<open>k in o\<close> holds and \<^verbatim>\<open>o[k]\<close> is defined, whether \<open>k\<close> is an own property of \<open>o\<close> or not.
\<close>

definition objectPrototypeNames :: "string list" where
  "objectPrototypeNames =
     [''constructor'', ''__defineGetter__'', ''__defineSetter__'', ''hasOwnProperty'',
      ''__lookupGetter__'', ''__lookupSetter__'', ''isPrototypeOf'', ''propertyIsEnumerable'',
      ''toString'', ''valueOf'', ''__proto__'', ''toLocaleString'']"

text \<open>
  \<^verbatim>\<open>o[k]\<close> for an object \<open>o\<close> with the prototype \<^verbatim>\<open>Object.prototype\<close> and without an own property
  \<open>k\<close>: \<^verbatim>\<open>constructor\<close> is the function \<^verbatim>\<open>Object\<close>, the accessor \<^verbatim>\<open>__proto__\<close> returns the prototype,
  the object \<^verbatim>\<open>Object.prototype\<close>, which has no enumerable property, and every other member is
  the built-in function of its name.
\<close>

definition objectPrototypeGet :: "string \<Rightarrow> jsval" where
  "objectPrototypeGet k =
     (if k = ''__proto__'' then JObj []
      else if k = ''constructor'' then JFunction ''Object''
      else if k \<in> set objectPrototypeNames then JFunction k
      else JUndefined)"

text \<open>\<^verbatim>\<open>k in o\<close> for an object \<open>o\<close> with the prototype \<^verbatim>\<open>Object.prototype\<close>.\<close>

definition inObject :: "obj \<Rightarrow> string \<Rightarrow> bool" where
  "inObject object k = (hasKey object k \<or> k \<in> set objectPrototypeNames)"

text \<open>\<^verbatim>\<open>f === v\<close> for a function \<open>f\<close>: \<open>v\<close> is the same function.\<close>

fun sameFunction :: "jsval \<Rightarrow> jsval \<Rightarrow> bool" where
  "sameFunction (JFunction f) (JFunction f') = (f = f')"
| "sameFunction v v' = False"

text \<open>
  \<^verbatim>\<open>v[k]\<close> for a value \<open>v\<close> that is neither \<^verbatim>\<open>undefined\<close> nor \<^verbatim>\<open>null\<close>: the own properties of an
  object and the members it inherits from \<^verbatim>\<open>Object.prototype\<close>, the elements and the length
  of arrays and strings.
\<close>

fun getProp :: "jsval \<Rightarrow> string \<Rightarrow> jsval" where
  "getProp (JObj ps) k = (if hasKey ps k then lookupKey ps k else objectPrototypeGet k)"
| "getProp (JRegExp r ps) k = lookupKey ps k"
| "getProp (JArr xs) k =
     (if isArrayIndex k then nthJs xs (int (natOfDigits 0 k))
      else if k = ''length'' then JNum (int (length xs)) else JUndefined)"
| "getProp (JStr s) k =
     (if isArrayIndex k then (if natOfDigits 0 k < length s then JStr [s ! natOfDigits 0 k] else JUndefined)
      else if k = ''length'' then JNum (int (length s)) else JUndefined)"
| "getProp v k = JUndefined"

section \<open>Splitting a path\<close>

text \<open>
  \<^verbatim>\<open>String.prototype.split(separator, limit)\<close> with a regular expression separator, as
  \<^verbatim>\<open>RegExp.prototype[Symbol.split]\<close> runs it: \<open>p\<close> is the end of the previous match, \<open>q\<close>
  the position tried next, \<open>A\<close> the pieces so far, \<open>lim\<close> the limit. A match that ends at
  \<open>p\<close> is skipped; otherwise the piece from \<open>p\<close> to \<open>q\<close> and the capture groups are pushed,
  and the result is returned as soon as it holds \<open>lim\<close> elements.
\<close>

definition substring :: "string \<Rightarrow> nat \<Rightarrow> nat \<Rightarrow> string" where
  "substring S p q = take (q - p) (drop p S)"

fun pushCaptures :: "nat \<Rightarrow> string option list \<Rightarrow> string option list \<Rightarrow> string option list \<times> bool" where
  "pushCaptures lim A [] = (A, False)"
| "pushCaptures lim A (c # cs) =
     (let A' = A @ [c] in if length A' = lim then (A', True) else pushCaptures lim A' cs)"

function splitLoop :: "RegExp \<Rightarrow> string \<Rightarrow> nat \<Rightarrow> nat \<Rightarrow> nat \<Rightarrow> string option list \<Rightarrow> string option list" where
  "splitLoop r S lim p q A =
     (if q < length S then
        (case exec r S q of
           None \<Rightarrow> splitLoop r S lim p (Suc q) A
         | Some (n, caps) \<Rightarrow>
             (let e = min (q + n) (length S) in
              if e = p then splitLoop r S lim p (Suc q) A
              else
                (let A1 = A @ [Some (substring S p q)] in
                 if length A1 = lim then A1
                 else
                   (case pushCaptures lim A1 caps of
                      (A2, full) \<Rightarrow> if full then A2 else splitLoop r S lim e e A2))))
      else A @ [Some (substring S p (length S))])"
  by pat_completeness auto
termination
  by (relation "measures [\<lambda>(r, S, lim, p, q, A). length S - q, \<lambda>(r, S, lim, p, q, A). if p = q then 0 else 1]")
     (auto split: if_splits)

definition jsSplit :: "string \<Rightarrow> RegExp \<Rightarrow> nat option \<Rightarrow> string option list" where
  "jsSplit S r limit =
     (let lim = (case limit of None \<Rightarrow> 4294967295 | Some l \<Rightarrow> l) in
      if lim = 0 then []
      else if length S = 0 then (case exec r S 0 of None \<Rightarrow> [Some S] | Some z \<Rightarrow> [])
      else splitLoop r S lim 0 0 [])"

text \<open>\<^verbatim>\<open>const [root, remainder] = ...\<close>: the element, \<^verbatim>\<open>undefined\<close> when the array is shorter.\<close>

definition nthOpt :: "string option list \<Rightarrow> nat \<Rightarrow> string option" where
  "nthOpt xs i = (if i < length xs then xs ! i else None)"

text \<open>\<^verbatim>\<open>.filter(i => !!i)\<close> on the pieces of a split: the non-empty strings stay.\<close>

fun filterTruthy :: "string option list \<Rightarrow> string list" where
  "filterTruthy [] = []"
| "filterTruthy (None # xs) = filterTruthy xs"
| "filterTruthy (Some s # xs) = (if s \<noteq> [] then s # filterTruthy xs else filterTruthy xs)"

record SplitResult =
  root :: "string option"
  groups :: "string list"

text \<open>\<open>root = None\<close> is \<^verbatim>\<open>null\<close>.\<close>

definition splitPath :: "string \<Rightarrow> RegExp \<Rightarrow> RegExp \<Rightarrow> SplitResult" where
  "splitPath kind rootSeparator groupSeparator =
     (let parts = jsSplit kind rootSeparator (Some 2);
          root' = nthOpt parts 0;
          remainder = nthOpt parts 1;
          groups' = filterTruthy (jsSplit (if truthyStr remainder then the remainder else kind) groupSeparator None)
      in \<lparr> root = (if truthyStr remainder then root' else None), groups = groups' \<rparr>)"

section \<open>The merge of two objects\<close>

text \<open>
  \<^verbatim>\<open>isEqual\<close> of \<^verbatim>\<open>lodash.isequal\<close>, the deep comparison: arrays element by element, objects by
  their keys whatever the order, regular expressions by their text, functions by identity.
\<close>

fun isEqual :: "jsval \<Rightarrow> jsval \<Rightarrow> bool"
  and isEqualList :: "jsval list \<Rightarrow> jsval list \<Rightarrow> bool"
  and isEqualProps :: "(string \<times> jsval) list \<Rightarrow> (string \<times> jsval) list \<Rightarrow> bool" where
  "isEqual (JArr xs) v = (case v of JArr ys \<Rightarrow> isEqualList xs ys | _ \<Rightarrow> False)"
| "isEqual (JObj ps) v = (case v of JObj qs \<Rightarrow> length ps = length qs \<and> isEqualProps ps qs | _ \<Rightarrow> False)"
| "isEqual (JRegExp r ps) v = (case v of JRegExp r' qs \<Rightarrow> pattern r = pattern r' | _ \<Rightarrow> False)"
| "isEqual JUndefined v = (case v of JUndefined \<Rightarrow> True | _ \<Rightarrow> False)"
| "isEqual JNull v = (case v of JNull \<Rightarrow> True | _ \<Rightarrow> False)"
| "isEqual (JBool b) v = (case v of JBool b' \<Rightarrow> b = b' | _ \<Rightarrow> False)"
| "isEqual (JNum n) v = (case v of JNum n' \<Rightarrow> n = n' | _ \<Rightarrow> False)"
| "isEqual (JStr s) v = (case v of JStr s' \<Rightarrow> s = s' | _ \<Rightarrow> False)"
| "isEqual (JFunction f) v = (case v of JFunction f' \<Rightarrow> f = f' | _ \<Rightarrow> False)"
| "isEqualList [] ys = (ys = [])"
| "isEqualList (x # xs) ys = (case ys of [] \<Rightarrow> False | y # ys' \<Rightarrow> isEqual x y \<and> isEqualList xs ys')"
| "isEqualProps [] qs = True"
| "isEqualProps ((k, v) # ps) qs = (hasKey qs k \<and> isEqual v (lookupKey qs k) \<and> isEqualProps ps qs)"

text \<open>\<^verbatim>\<open>xs.find(P)\<close>: the first element that satisfies \<open>P\<close>, \<^verbatim>\<open>undefined\<close> when there is none.\<close>

fun findJs :: "(jsval \<Rightarrow> bool) \<Rightarrow> jsval list \<Rightarrow> jsval" where
  "findJs P [] = JUndefined"
| "findJs P (x # xs) = (if P x then x else findJs P xs)"

text \<open>
  The customizer that \<^verbatim>\<open>merge\<close> hands to \<^verbatim>\<open>mergeWith\<close>. For two arrays every element \<open>s\<close> of
  the incoming array is pushed onto the existing one unless \<^verbatim>\<open>find\<close> returns a truthy
  element equal to it (\<^verbatim>\<open>o === s || isEqual(o, s)\<close> is \<open>isEqual o s\<close> on values); an existing
  array is kept against an incoming value of another type; every other pair is left to
  \<^verbatim>\<open>mergeWith\<close> (\<^verbatim>\<open>undefined\<close>).
\<close>

definition pushMissing :: "jsval list \<Rightarrow> jsval \<Rightarrow> jsval list" where
  "pushMissing objValue s =
     (let existing = findJs (\<lambda>o'. isEqual o' s) objValue in
      if \<not> truthy existing then objValue @ [s] else objValue)"

definition customizer :: "jsval \<Rightarrow> jsval \<Rightarrow> jsval" where
  "customizer objValue srcValue =
     (case objValue of
        JArr os \<Rightarrow> (case srcValue of JArr ss \<Rightarrow> JArr (foldl pushMissing os ss) | _ \<Rightarrow> JArr os)
      | _ \<Rightarrow> JUndefined)"

text \<open>
  \<^verbatim>\<open>mergeWith(object, ...sources, customizer)\<close> of \<^verbatim>\<open>lodash.mergewith\<close>: the sources are applied
  from left to right, each property of a source in turn. For a property \<open>k\<close> with source
  value \<open>srcValue\<close> and destination value \<open>objValue\<close>, the customizer is asked first and its
  result is taken unless it is \<^verbatim>\<open>undefined\<close>. Otherwise an array or a plain object is merged
  recursively (into the destination value when that is of the same kind, into a copy
  of an array-like destination object, and into a fresh array or object otherwise), a regular
  expression or a function is assigned as it is, and any other value is assigned as it is.
  \<^verbatim>\<open>assignMergeValue\<close> assigns a result \<open>v\<close> that is not \<^verbatim>\<open>undefined\<close> unless the destination
  holds it already (\<^verbatim>\<open>eq(object[key], value)\<close>: for an own property the assignment would
  change nothing; without an own property \<open>k\<close> the destination holds the member it inherits),
  and a result that is \<^verbatim>\<open>undefined\<close> only when \<^verbatim>\<open>key in object\<close> is false (as lodash 4.17 does;
  earlier releases leave the property out, and the own property read at \<open>k\<close> is \<^verbatim>\<open>undefined\<close>
  either way). The two values are read by \<^verbatim>\<open>safeGet\<close> (lodash 4.17.21): the destination is
  not read at \<^verbatim>\<open>__proto__\<close>, and a source property \<^verbatim>\<open>__proto__\<close> that holds an object, or
  \<^verbatim>\<open>constructor\<close> that holds a function, is read as \<^verbatim>\<open>undefined\<close> (\<open>hiddenFromSafeGet\<close>). At any
  other key the destination is read with the members it inherits, which are functions; a
  function in the destination is merged over as \<^verbatim>\<open>undefined\<close> is, so \<open>safeGet\<close> reads the own
  property.

  \<open>mergeValue objValue srcValue\<close> is the value the destination holds at the property
  afterwards, \<open>mergeProps\<close> and \<open>mergeElems\<close> run over the properties of a source object and the
  elements of a source array.
\<close>

definition isArrayLikeObject :: "jsval \<Rightarrow> bool" where
  "isArrayLikeObject v =
     (case v of
        JObj ps \<Rightarrow> (case lookupKey ps ''length'' of JNum n \<Rightarrow> 0 \<le> n \<and> n \<le> 9007199254740991 | _ \<Rightarrow> False)
      | JRegExp r ps \<Rightarrow> (case lookupKey ps ''length'' of JNum n \<Rightarrow> 0 \<le> n \<and> n \<le> 9007199254740991 | _ \<Rightarrow> False)
      | _ \<Rightarrow> False)"

definition copyArray :: "jsval \<Rightarrow> jsval list" where
  "copyArray v =
     (case getProp v ''length'' of
        JNum n \<Rightarrow> map (\<lambda>i. getProp v (stringOfNat i)) [0 ..< nat n]
      | _ \<Rightarrow> [])"

text \<open>\<^verbatim>\<open>isFunction(v)\<close> and \<^verbatim>\<open>isObject(v)\<close> of lodash, and \<^verbatim>\<open>safeGet\<close> on the destination and on the source.\<close>

fun isFunction :: "jsval \<Rightarrow> bool" where
  "isFunction (JFunction f) = True"
| "isFunction v = False"

fun isObject :: "jsval \<Rightarrow> bool" where
  "isObject (JArr xs) = True"
| "isObject (JObj ps) = True"
| "isObject (JRegExp r ps) = True"
| "isObject (JFunction f) = True"
| "isObject v = False"

definition safeGet :: "obj \<Rightarrow> string \<Rightarrow> jsval" where
  "safeGet object k = (if k = ''__proto__'' then JUndefined else lookupKey object k)"

definition hiddenFromSafeGet :: "string \<Rightarrow> jsval \<Rightarrow> bool" where
  "hiddenFromSafeGet k srcValue =
     ((k = ''__proto__'' \<and> isObject srcValue) \<or> (k = ''constructor'' \<and> isFunction srcValue))"

definition assignMergeValue :: "obj \<Rightarrow> string \<Rightarrow> jsval \<Rightarrow> obj" where
  "assignMergeValue object k v =
     (if \<not> isUndefined v then
        (if \<not> hasKey object k \<and> sameFunction (objectPrototypeGet k) v then object
         else setKey object k v)
      else if \<not> inObject object k then setKey object k v
      else object)"

definition assignMergeElem :: "jsval list \<Rightarrow> nat \<Rightarrow> jsval \<Rightarrow> jsval list" where
  "assignMergeElem array i v =
     (if \<not> isUndefined v then setNth array i v
      else if \<not> i < length array then setNth array i v
      else array)"

fun mergeValue :: "jsval \<Rightarrow> jsval \<Rightarrow> jsval"
  and mergeProps :: "obj \<Rightarrow> (string \<times> jsval) list \<Rightarrow> obj"
  and mergeElems :: "jsval list \<Rightarrow> nat \<Rightarrow> jsval list \<Rightarrow> jsval list" where
  "mergeValue objValue (JArr ss) =
     (let newValue = customizer objValue (JArr ss) in
      if \<not> isUndefined newValue then newValue
      else JArr (mergeElems (if isArrayLikeObject objValue then copyArray objValue else []) 0 ss))"
| "mergeValue objValue (JObj ps) =
     (let newValue = customizer objValue (JObj ps) in
      if \<not> isUndefined newValue then newValue
      else
        (case objValue of
           JObj qs \<Rightarrow> JObj (mergeProps qs ps)
         | JRegExp r qs \<Rightarrow> JRegExp r (mergeProps qs ps)
         | _ \<Rightarrow> JObj (mergeProps [] ps)))"
| "mergeValue objValue (JRegExp r ps) =
     (let newValue = customizer objValue (JRegExp r ps) in
      if isUndefined newValue then JRegExp r ps else newValue)"
| "mergeValue objValue (JFunction f) =
     (let newValue = customizer objValue (JFunction f) in
      if isUndefined newValue then JFunction f else newValue)"
| "mergeValue objValue JUndefined =
     (let newValue = customizer objValue JUndefined in
      if isUndefined newValue then JUndefined else newValue)"
| "mergeValue objValue JNull =
     (let newValue = customizer objValue JNull in
      if isUndefined newValue then JNull else newValue)"
| "mergeValue objValue (JBool b) =
     (let newValue = customizer objValue (JBool b) in
      if isUndefined newValue then JBool b else newValue)"
| "mergeValue objValue (JNum n) =
     (let newValue = customizer objValue (JNum n) in
      if isUndefined newValue then JNum n else newValue)"
| "mergeValue objValue (JStr s) =
     (let newValue = customizer objValue (JStr s) in
      if isUndefined newValue then JStr s else newValue)"
| "mergeProps object [] = object"
| "mergeProps object ((k, srcValue) # ps) =
     mergeProps
       (assignMergeValue object k
          (if hiddenFromSafeGet k srcValue then mergeValue (safeGet object k) JUndefined
           else mergeValue (safeGet object k) srcValue)) ps"
| "mergeElems array i [] = array"
| "mergeElems array i (srcValue # ss) =
     mergeElems (assignMergeElem array i (mergeValue (nthJs array (int i)) srcValue)) (Suc i) ss"

text \<open>
  \<^verbatim>\<open>merge(a, b) = mergeWith({}, a, b, customizer)\<close> for two sources with the enumerable
  properties \<open>a\<close> and \<open>b\<close>.
\<close>

definition merge :: "obj \<Rightarrow> obj \<Rightarrow> obj" where
  "merge a b = mergeProps (mergeProps [] a) b"

text \<open>
  The enumerable properties \<^verbatim>\<open>mergeWith\<close> reads off a truthy source (\<^verbatim>\<open>keysIn\<close>): the properties
  of an object, the elements of an array, the code units of a string, and none of a
  number, a boolean or a built-in function.
\<close>

fun sourceProps :: "jsval \<Rightarrow> obj" where
  "sourceProps (JObj ps) = ps"
| "sourceProps (JRegExp r ps) = ps"
| "sourceProps (JArr xs) = zip (map stringOfNat [0 ..< length xs]) xs"
| "sourceProps (JStr cs) = zip (map stringOfNat [0 ..< length cs]) (map (\<lambda>c. JStr [c]) cs)"
| "sourceProps v = []"

section \<open>The hierarchy mapping\<close>

text \<open>
  A leaf record (\<^verbatim>\<open>StoryInput\<close>). \<open>story_children = None\<close> is a record without a
  \<^verbatim>\<open>children\<close> property. The two separators are the properties \<^verbatim>\<open>hierarchyRootSeparator\<close> and
  \<^verbatim>\<open>hierarchySeparator\<close> of \<^verbatim>\<open>parameters.options\<close>; \<open>other_options\<close> and \<open>other_parameters\<close>
  are the remaining properties of \<^verbatim>\<open>parameters.options\<close> and of \<^verbatim>\<open>parameters\<close>.
\<close>

record Parameters =
  filename :: string
  hierarchyRootSeparator :: RegExp
  hierarchySeparator :: RegExp
  other_options :: obj
  other_parameters :: obj

record StoryInput =
  story_id :: string
  story_name :: string
  story_kind :: string
  story_children :: "string list option"
  story_parameters :: Parameters

text \<open>
  A group of a chain (\<^verbatim>\<open>Group\<close>). \<open>group_parent\<close> is the value of \<^verbatim>\<open>index > 0 && soFar[index - 1].id\<close>:
  the boolean \<^verbatim>\<open>false\<close> for the first group, the identifier of the previous group otherwise.
\<close>

record Group =
  group_name :: string
  group_id :: string
  group_parent :: jsval
  group_depth :: nat
  group_children :: "jsval list"
  group_isComponent :: bool
  group_isRoot :: bool

text \<open>
  The hierarchy mapping is an object whose own properties are the entries. \<open>entries\<close> are
  these, in the order \<^verbatim>\<open>Object.keys\<close>, \<^verbatim>\<open>Object.values\<close> and \<^verbatim>\<open>Object.entries\<close> enumerate them.
  \<open>prototype\<close> is the prototype of the mapping: \<open>None\<close> is \<^verbatim>\<open>Object.prototype\<close>, the prototype of
  the empty object \<^verbatim>\<open>{}\<close> the mapping is built from, and \<open>Some p\<close> is the object \<open>p\<close> that an
  assignment to \<^verbatim>\<open>__proto__\<close> has put in its place (an entry, whose own prototype is
  \<^verbatim>\<open>Object.prototype\<close>).
\<close>

type_synonym Entries = "(string \<times> obj) list"

record StoriesHash =
  entries :: Entries
  prototype :: "obj option"

definition emptyHash :: StoriesHash where
  "emptyHash = \<lparr> entries = [], prototype = None \<rparr>"

text \<open>
  \<^verbatim>\<open>storiesHash[k]\<close>: the own entry, else what the mapping inherits at \<open>k\<close>: a property of its
  prototype \<open>p\<close>, the prototype itself for \<^verbatim>\<open>__proto__\<close>, or a member of \<^verbatim>\<open>Object.prototype\<close>.
\<close>

definition hashGet :: "StoriesHash \<Rightarrow> string \<Rightarrow> jsval" where
  "hashGet hash k =
     (case map_of (entries hash) k of
        Some e \<Rightarrow> JObj e
      | None \<Rightarrow>
          (case prototype hash of
             None \<Rightarrow> objectPrototypeGet k
           | Some p \<Rightarrow>
               if hasKey p k then lookupKey p k
               else if k = ''__proto__'' then JObj p
               else objectPrototypeGet k))"

text \<open>
  \<^verbatim>\<open>storiesHash[k] = e\<close> for an object \<open>e\<close>: an own property is set or created, but for the key
  \<^verbatim>\<open>__proto__\<close>, when neither the mapping nor its prototype has an own property of that name,
  the assignment runs the setter of \<^verbatim>\<open>Object.prototype\<close>: it makes \<open>e\<close> the prototype of the
  mapping and creates no property.
\<close>

definition hashSet :: "StoriesHash \<Rightarrow> string \<Rightarrow> obj \<Rightarrow> StoriesHash" where
  "hashSet hash k e =
     (if k = ''__proto__'' \<and> \<not> hasKey (entries hash) k
         \<and> \<not> (case prototype hash of None \<Rightarrow> False | Some p \<Rightarrow> hasKey p k)
      then hash\<lparr> prototype := Some e \<rparr>
      else hash\<lparr> entries := setKey (entries hash) k e \<rparr>)"

text \<open>
  The store state the module reads and writes; the other fields of the manager's state
  are the extension of the record.
\<close>

record State =
  storiesHash :: StoriesHash
  storyId :: "string option"
  viewMode :: "string option"

text \<open>
  What a call does: it returns or throws, it calls \<^verbatim>\<open>navigate\<close> with the paths \<open>navigated\<close>,
  and it leaves the store in the state \<open>final\<close>.
\<close>

record ('r, 's) Outcome =
  returned :: "error + 'r"
  navigated :: "string list"
  final :: 's

subsection \<open>Template strings\<close>

fun toStringJs :: "jsval \<Rightarrow> string"
  and joinJs :: "jsval list \<Rightarrow> string" where
  "toStringJs JUndefined = ''undefined''"
| "toStringJs JNull = ''null''"
| "toStringJs (JBool b) = (if b then ''true'' else ''false'')"
| "toStringJs (JNum n) = stringOfInt n"
| "toStringJs (JStr s) = s"
| "toStringJs (JRegExp r ps) = pattern r"
| "toStringJs (JArr xs) = joinJs xs"
| "toStringJs (JObj ps) = ''[object Object]''"
| "toStringJs (JFunction f) = ''function '' @ f @ ''() { [native code] }''"
| "joinJs [] = []"
| "joinJs (x # xs) =
     (if isNullish x then [] else toStringJs x) @ (if xs = [] then [] else '','' @ joinJs xs)"

subsection \<open>The chain of groups of a path\<close>

text \<open>
  \<^verbatim>\<open>[].concat(root || []).concat(groups)\<close>: the names of the chain. (\<^verbatim>\<open>toGroup\<close> pairs each name
  with \<^verbatim>\<open>toKey(name)\<close> as its \<^verbatim>\<open>id\<close>, which the reduce below overwrites by its own \<^verbatim>\<open>id\<close>.)
\<close>

definition chainNames :: "SplitResult \<Rightarrow> string list" where
  "chainNames sp = (if truthyStr (root sp) then [the (root sp)] else []) @ groups sp"

text \<open>
  The reduce over the names: \<open>soFar\<close> is the accumulator, \<open>index\<close> the position of the name
  and \<open>len\<close> the length of the array the reduce runs over. \<open>sanitize\<close> is the function of
  that name imported from \<^verbatim>\<open>../lib/id\<close>.
\<close>

fun chainReduce ::
  "(string \<Rightarrow> string) \<Rightarrow> string option \<Rightarrow> nat \<Rightarrow> Group list \<Rightarrow> nat \<Rightarrow> string list \<Rightarrow> Group list" where
  "chainReduce sanitize root' len soFar index [] = soFar"
| "chainReduce sanitize root' len soFar index (name # names) =
     (let parent = (if index > 0 then JStr (group_id (soFar ! (index - 1))) else JBool False);
          id' = sanitize (if truthy parent then toStringJs parent @ ''-'' @ name else name);
          result = \<lparr> group_name = name, group_id = id', group_parent = parent, group_depth = index,
                     group_children = [], group_isComponent = (int index = int len - 1),
                     group_isRoot = (truthyStr root' \<and> index = 0) \<rparr>
      in chainReduce sanitize root' len (soFar @ [result]) (Suc index) names)"

definition buildChain :: "(string \<Rightarrow> string) \<Rightarrow> SplitResult \<Rightarrow> Group list" where
  "buildChain sanitize sp =
     chainReduce sanitize (root sp) (length (chainNames sp)) [] 0 (chainNames sp)"

subsection \<open>setStories\<close>

text \<open>\<^verbatim>\<open>{...group, ...(child && { children: [child] })}\<close>.\<close>

definition groupObj :: "Group \<Rightarrow> string option \<Rightarrow> obj" where
  "groupObj g child =
     [(''name'', JStr (group_name g)), (''id'', JStr (group_id g)), (''parent'', group_parent g),
      (''depth'', JNum (int (group_depth g))),
      (''children'', JArr (if truthyStr child then [JStr (the child)] else group_children g)),
      (''isComponent'', JBool (group_isComponent g)), (''isRoot'', JBool (group_isRoot g))]"

definition parametersObj :: "Parameters \<Rightarrow> jsval" where
  "parametersObj ps =
     JObj ([(''filename'', JStr (filename ps)),
            (''options'', JObj ([(''hierarchyRootSeparator'', JRegExp (hierarchyRootSeparator ps) []),
                                 (''hierarchySeparator'', JRegExp (hierarchySeparator ps) [])]
                                @ other_options ps))]
           @ other_parameters ps)"

text \<open>\<^verbatim>\<open>{ ...item, parent }\<close>.\<close>

definition storyObj :: "StoryInput \<Rightarrow> string \<Rightarrow> obj" where
  "storyObj item parent =
     setKey
       ([(''id'', JStr (story_id item)), (''name'', JStr (story_name item)), (''kind'', JStr (story_kind item))]
        @ (case story_children item of None \<Rightarrow> [] | Some cs \<Rightarrow> [(''children'', JArr (map JStr cs))])
        @ [(''parameters'', parametersObj (story_parameters item))])
       ''parent'' (JStr parent)"

text \<open>
  \<^verbatim>\<open>acc[id] || {}\<close>: what the mapping holds at \<open>id\<close>, an entry or an inherited value, when that is
  truthy. \<^verbatim>\<open>merge\<close> reads the enumerable properties of it.
\<close>

definition entryOrEmpty :: "StoriesHash \<Rightarrow> string \<Rightarrow> jsval" where
  "entryOrEmpty acc k = (let v = hashGet acc k in if truthy v then v else JObj [])"

text \<open>The \<^verbatim>\<open>forEach\<close> over the chain, \<open>index\<close> the position of the group.\<close>

fun addGroups :: "StoriesHash \<Rightarrow> string list \<Rightarrow> nat \<Rightarrow> Group list \<Rightarrow> StoriesHash" where
  "addGroups acc paths index [] = acc"
| "addGroups acc paths index (g # gs) =
     (let child = (if index + 1 < length paths then Some (paths ! (index + 1)) else None);
          id' = group_id g
      in addGroups (hashSet acc id' (merge (sourceProps (entryOrEmpty acc id')) (groupObj g child)))
           paths (Suc index) gs)"

text \<open>
  One step of the reduce over the batch. With an empty chain,
  \<^verbatim>\<open>rootAndGroups[rootAndGroups.length - 1]\<close> is \<^verbatim>\<open>undefined\<close> and reading its \<^verbatim>\<open>id\<close> throws.
\<close>

definition storyStep :: "(string \<Rightarrow> string) \<Rightarrow> StoriesHash \<Rightarrow> StoryInput \<Rightarrow> error + StoriesHash" where
  "storyStep sanitize acc item =
     (let sp = splitPath (story_kind item) (hierarchyRootSeparator (story_parameters item))
                 (hierarchySeparator (story_parameters item));
          rootAndGroups = buildChain sanitize sp;
          paths = map group_id rootAndGroups @ [story_id item];
          acc' = addGroups acc paths 0 rootAndGroups
      in if rootAndGroups = [] then Inl TypeError
         else Inr (hashSet acc' (story_id item) (storyObj item (group_id (last rootAndGroups)))))"

fun reduceStories :: "(string \<Rightarrow> string) \<Rightarrow> StoriesHash \<Rightarrow> StoryInput list \<Rightarrow> error + StoriesHash" where
  "reduceStories sanitize acc [] = Inr acc"
| "reduceStories sanitize acc (item # items) =
     (case storyStep sanitize acc item of
        Inl e \<Rightarrow> Inl e
      | Inr acc' \<Rightarrow> reduceStories sanitize acc' items)"

text \<open>\<^verbatim>\<open>Object.values(storiesHash).find(s => !s.children)\<close>.\<close>

definition firstLeaf :: "Entries \<Rightarrow> obj option" where
  "firstLeaf es = find (\<lambda>s. \<not> truthy (lookupKey s ''children'')) (map snd es)"

text \<open>
  \<open>input\<close> is \<^verbatim>\<open>Object.values(input)\<close>, the records of the batch in the order of the batch. The
  mapping is built from the empty object \<^verbatim>\<open>hash\<close>, and \<^verbatim>\<open>store.setState({ storiesHash })\<close> puts
  it in the place of the mapping of the store. \<^verbatim>\<open>!storiesHash[storyId]\<close> reads the mapping at
  the current \<^verbatim>\<open>storyId\<close>, an own entry or an inherited member.
\<close>

definition setStories ::
  "(string \<Rightarrow> string) \<Rightarrow> StoryInput list \<Rightarrow> 'a State_scheme \<Rightarrow> (unit, 'a State_scheme) Outcome" where
  "setStories sanitize input s =
     (case reduceStories sanitize emptyHash input of
        Inl e \<Rightarrow> \<lparr> returned = Inl e, navigated = [], final = s \<rparr>
      | Inr hash \<Rightarrow>
          \<lparr> returned = Inr (),
            navigated =
              (if \<not> truthyStr (storyId s) \<or> \<not> truthy (hashGet hash (the (storyId s))) then
                 (case firstLeaf (entries hash) of
                    Some leaf \<Rightarrow>
                      if truthyStr (viewMode s)
                      then [''/'' @ the (viewMode s) @ ''/'' @ toStringJs (lookupKey leaf ''id'')]
                      else []
                  | None \<Rightarrow> [])
               else []),
            final = s\<lparr> storiesHash := hash \<rparr> \<rparr>)"

section \<open>Navigation and lookup\<close>

text \<open>\<^verbatim>\<open>xs.indexOf(x)\<close> and \<^verbatim>\<open>xs.findIndex(P)\<close>: the first position, \<open>-1\<close> when there is none.\<close>

fun findIndex :: "('a \<Rightarrow> bool) \<Rightarrow> 'a list \<Rightarrow> int" where
  "findIndex P [] = - 1"
| "findIndex P (y # ys) = (if P y then 0 else (let i = findIndex P ys in if i < 0 then - 1 else i + 1))"

definition indexOf :: "string list \<Rightarrow> string \<Rightarrow> int" where
  "indexOf xs x = findIndex (\<lambda>y. y = x) xs"

text \<open>\<^verbatim>\<open>xs[i]\<close> on an array of any elements: \<open>None\<close> (\<^verbatim>\<open>undefined\<close>) out of range.\<close>

definition nthAt :: "'a list \<Rightarrow> int \<Rightarrow> 'a option" where
  "nthAt xs i = (if 0 \<le> i \<and> i < int (length xs) then Some (xs ! nat i) else None)"

text \<open>\<^verbatim>\<open>storiesHash[k]\<close> for a key \<open>k\<close> of the mapping: the own entry.\<close>

definition entryAt :: "Entries \<Rightarrow> string \<Rightarrow> obj" where
  "entryAt es k = the (map_of es k)"

text \<open>
  The leaves \<^verbatim>\<open>jumpToStory\<close> walks: the keys whose entry has no truthy \<^verbatim>\<open>children\<close> (an entry
  is an object, never an array, so \<^verbatim>\<open>Array.isArray(storiesHash[k])\<close> is false).
\<close>

definition leafKeys :: "Entries \<Rightarrow> string list" where
  "leafKeys es = filter (\<lambda>k. \<not> truthy (lookupKey (entryAt es k) ''children'')) (map fst es)"

text \<open>
  \<open>direction\<close> is \<open>-1\<close> or \<open>1\<close>. \<^verbatim>\<open>!storiesHash[storyId]\<close> reads the mapping at \<^verbatim>\<open>storyId\<close>: an
  entry is an object and an inherited member is a function or an object, so the guard lets
  through every key of the mapping and every name the mapping inherits (\<^verbatim>\<open>constructor\<close>,
  \<^verbatim>\<open>toString\<close>, ...). \<^verbatim>\<open>Object.keys\<close> enumerates the own entries only, so an inherited name is not
  in \<^verbatim>\<open>lookupList\<close> and its \<^verbatim>\<open>index\<close> is \<open>-1\<close>. The call returns nothing; what it does is the
  navigation.
\<close>

definition jumpToStory :: "int \<Rightarrow> 'a State_scheme \<Rightarrow> (unit, 'a State_scheme) Outcome" where
  "jumpToStory direction s =
     (if \<not> truthyStr (storyId s) \<or> \<not> truthy (hashGet (storiesHash s) (the (storyId s))) then
        \<lparr> returned = Inr (), navigated = [], final = s \<rparr>
      else
        (let lookupList = leafKeys (entries (storiesHash s));
             index = indexOf lookupList (the (storyId s))
         in if index = int (length lookupList) - 1 \<and> direction > 0 then
              \<lparr> returned = Inr (), navigated = [], final = s \<rparr>
            else if index = 0 \<and> direction < 0 then
              \<lparr> returned = Inr (), navigated = [], final = s \<rparr>
            else
              (let result = nthAt lookupList (index + direction)
               in if truthyStr (viewMode s) \<and> truthyStr result then
                    \<lparr> returned = Inr (), navigated = [''/'' @ the (viewMode s) @ ''/'' @ the result], final = s \<rparr>
                  else \<lparr> returned = Inr (), navigated = [], final = s \<rparr>)))"

text \<open>\<^verbatim>\<open>storiesHash[storyId]\<close>: an entry, an inherited member, or \<^verbatim>\<open>undefined\<close>.\<close>

definition getData :: "string \<Rightarrow> 'a State_scheme \<Rightarrow> (jsval, 'a State_scheme) Outcome" where
  "getData sid s = \<lparr> returned = Inr (hashGet (storiesHash s) sid), navigated = [], final = s \<rparr>"

text \<open>\<^verbatim>\<open>!!(story && story.parameters)\<close>.\<close>

definition isStory :: "jsval \<Rightarrow> bool" where
  "isStory story = (truthy story \<and> truthy (getProp story ''parameters''))"

definition getParameters ::
  "string \<Rightarrow> string option \<Rightarrow> 'a State_scheme \<Rightarrow> (jsval, 'a State_scheme) Outcome" where
  "getParameters sid parameterName s =
     (let r = getData sid s in
      case returned r of
        Inl e \<Rightarrow> \<lparr> returned = Inl e, navigated = navigated r, final = final r \<rparr>
      | Inr data \<Rightarrow>
          if isStory data then
            (let parameters = getProp data ''parameters''
             in \<lparr> returned = Inr (if truthyStr parameterName then getProp parameters (the parameterName)
                                   else parameters),
                  navigated = navigated r, final = final r \<rparr>)
          else \<lparr> returned = Inr JNull, navigated = navigated r, final = final r \<rparr>)"

text \<open>\<^verbatim>\<open>[...v]\<close>: the elements of an array, the code units of a string, a throw otherwise.\<close>

definition spreadJs :: "jsval \<Rightarrow> error + jsval list" where
  "spreadJs v = (case v of JArr xs \<Rightarrow> Inr xs | JStr cs \<Rightarrow> Inr (map (\<lambda>c. JStr [c]) cs) | _ \<Rightarrow> Inl TypeError)"

text \<open>The reduce over \<^verbatim>\<open>Object.entries(storiesHash)\<close> that collects the child lists of the component groups.\<close>

fun componentLists :: "Entries \<Rightarrow> jsval list list \<Rightarrow> error + jsval list list" where
  "componentLists [] acc = Inr acc"
| "componentLists ((k, value') # es) acc =
     (if truthy (lookupKey value' ''isComponent'') then
        (case spreadJs (lookupKey value' ''children'') of
           Inl e \<Rightarrow> Inl e
         | Inr xs \<Rightarrow> componentLists es (acc @ [xs]))
      else componentLists es acc)"

text \<open>
  The guard is the one of \<^verbatim>\<open>jumpToStory\<close>. \<^verbatim>\<open>i.includes(storyId)\<close> looks for an element that is
  the string \<^verbatim>\<open>storyId\<close>; reading the element \<^verbatim>\<open>0\<close> of \<^verbatim>\<open>lookupList[index + direction]\<close> throws when
  that list is \<^verbatim>\<open>undefined\<close>.
\<close>

definition jumpToComponent :: "int \<Rightarrow> 'a State_scheme \<Rightarrow> (unit, 'a State_scheme) Outcome" where
  "jumpToComponent direction s =
     (if \<not> truthyStr (storyId s) \<or> \<not> truthy (hashGet (storiesHash s) (the (storyId s))) then
        \<lparr> returned = Inr (), navigated = [], final = s \<rparr>
      else
        (case componentLists (entries (storiesHash s)) [] of
           Inl e \<Rightarrow> \<lparr> returned = Inl e, navigated = [], final = s \<rparr>
         | Inr lookupList \<Rightarrow>
             (let index = findIndex (\<lambda>i. list_ex (\<lambda>x. isString x (the (storyId s))) i) lookupList
              in if index = int (length lookupList) - 1 \<and> direction > 0 then
                   \<lparr> returned = Inr (), navigated = [], final = s \<rparr>
                 else if index = 0 \<and> direction < 0 then
                   \<lparr> returned = Inr (), navigated = [], final = s \<rparr>
                 else
                   (case nthAt lookupList (index + direction) of
                      None \<Rightarrow> \<lparr> returned = Inl TypeError, navigated = [], final = s \<rparr>
                    | Some list \<Rightarrow>
                        (let result = nthJs list 0
                         in \<lparr> returned = Inr (),
                              navigated = [''/'' @ (if truthyStr (viewMode s) then the (viewMode s) else ''story'')
                                           @ ''/'' @ toStringJs result],
                              final = s \<rparr>)))))"

section \<open>Separators and identifiers of the examples\<close>

text \<open>A regular expression that matches one code unit out of \<open>cs\<close>, without capture groups.\<close>

definition charClass :: "string \<Rightarrow> string \<Rightarrow> RegExp" where
  "charClass pat cs = RegExp pat (\<lambda>S q. if q < length S \<and> S ! q \<in> set cs then Some (1, []) else None)"

text \<open>
  Modelled from the spec: the default separator options are set outside this module (its
  callers pass them in \<^verbatim>\<open>parameters.options\<close>). The spec delimits the groups of a path by
  \<^verbatim>\<open>/\<close> (\<^verbatim>\<open>Group/Subgroup/ItemName\<close>) and has a root separator that matches in neither path of
  its scenario; the defaults taken here are a root separator matching \<^verbatim>\<open>|\<close> and a group
  separator matching \<^verbatim>\<open>/\<close> or \<^verbatim>\<open>.\<close>.
\<close>

definition defaultRootSeparator :: RegExp where
  "defaultRootSeparator = charClass ''/[|]/'' ''|''"

definition defaultGroupSeparator :: RegExp where
  "defaultGroupSeparator = charClass ''/[/.]/'' ''/.''"

text \<open>
  Modelled from the spec: \<^verbatim>\<open>sanitize\<close> is imported from \<^verbatim>\<open>../lib/id\<close>, which is not among the
  sources. The spec has it produce a restricted character set, deterministically and
  idempotently, and its scenarios turn \<^verbatim>\<open>UI\<close> into \<^verbatim>\<open>ui\<close>: letters are put in lower case,
  every run of other characters but digits becomes one \<^verbatim>\<open>-\<close>, and a \<^verbatim>\<open>-\<close> at either end is
  dropped.
\<close>

definition lowerChar :: "char \<Rightarrow> char" where
  "lowerChar c =
     (case map_of (zip ''ABCDEFGHIJKLMNOPQRSTUVWXYZ'' ''abcdefghijklmnopqrstuvwxyz'') c of
        Some l \<Rightarrow> l | None \<Rightarrow> c)"

definition isAlnum :: "char \<Rightarrow> bool" where
  "isAlnum c = (c \<in> set ''abcdefghijklmnopqrstuvwxyz0123456789'')"

fun dashRuns :: "string \<Rightarrow> string" where
  "dashRuns [] = []"
| "dashRuns (c # cs) =
     (if isAlnum c then c # dashRuns cs
      else (case dashRuns cs of
              [] \<Rightarrow> ''-''
            | d # ds \<Rightarrow> if d = CHR ''-'' then d # ds else CHR ''-'' # d # ds))"

definition specSanitize :: "string \<Rightarrow> string" where
  "specSanitize s =
     rev (dropWhile (\<lambda>c. c = CHR ''-'') (rev (dropWhile (\<lambda>c. c = CHR ''-'') (dashRuns (map lowerChar s)))))"

definition exampleParameters :: Parameters where
  "exampleParameters =
     \<lparr> filename = ''stories.js'', hierarchyRootSeparator = defaultRootSeparator,
       hierarchySeparator = defaultGroupSeparator, other_options = [], other_parameters = [] \<rparr>"

definition exampleStory :: "string \<Rightarrow> string \<Rightarrow> string \<Rightarrow> StoryInput" where
  "exampleStory i n k =
     \<lparr> story_id = i, story_name = n, story_kind = k, story_children = None,
       story_parameters = exampleParameters \<rparr>"

definition emptyState :: "string option \<Rightarrow> string option \<Rightarrow> State" where
  "emptyState sid vm = \<lparr> storiesHash = emptyHash, storyId = sid, viewMode = vm \<rparr>"

text \<open>A mapping with one component group and its two leaves, and a store state that holds it.\<close>

definition exampleHash :: StoriesHash where
  "exampleHash =
     \<lparr> entries =
     [(''ui'', [(''name'', JStr ''UI''), (''id'', JStr ''ui''), (''parent'', JBool False), (''depth'', JNum 0),
                (''children'', JArr [JStr ''ui--a'', JStr ''ui--b'']), (''isComponent'', JBool True),
                (''isRoot'', JBool False)]),
      (''ui--a'', [(''id'', JStr ''ui--a''), (''name'', JStr ''A''), (''kind'', JStr ''UI''),
                   (''parameters'', JObj [(''filename'', JStr ''stories.js'')]), (''parent'', JStr ''ui'')]),
      (''ui--b'', [(''id'', JStr ''ui--b''), (''name'', JStr ''B''), (''kind'', JStr ''UI''),
                   (''parameters'', JObj [(''filename'', JStr ''stories.js'')]), (''parent'', JStr ''ui'')])],
       prototype = None \<rparr>"

definition exampleState :: "string option \<Rightarrow> string option \<Rightarrow> State" where
  "exampleState sid vm = \<lparr> storiesHash = exampleHash, storyId = sid, viewMode = vm \<rparr>"

section \<open>Notions the claims use\<close>

text \<open>
  A scalar is a value that is neither an array nor an object (a regular expression and a
  function are objects).
\<close>

fun isScalar :: "jsval \<Rightarrow> bool" where
  "isScalar (JArr xs) = False"
| "isScalar (JObj ps) = False"
| "isScalar (JRegExp r ps) = False"
| "isScalar (JFunction f) = False"
| "isScalar v = True"

text \<open>
  From the position \<open>p\<close> on, the string \<open>S\<close> is made of separator matches only: every position
  the split arrives at starts a non-empty match of \<open>g\<close> that captures no text, up to the end
  of \<open>S\<close>.
\<close>

function separatorsOnly :: "RegExp \<Rightarrow> string \<Rightarrow> nat \<Rightarrow> bool" where
  "separatorsOnly g S p =
     (if p < length S then
        (case exec g S p of
           None \<Rightarrow> False
         | Some (n, caps) \<Rightarrow>
             if 0 < n \<and> filterTruthy caps = [] then separatorsOnly g S (min (p + n) (length S)) else False)
      else True)"
  by pat_completeness auto
termination
  by (relation "measure (\<lambda>(g, S, p). length S - p)") auto

text \<open>The value \<open>mergeProps\<close> hands to \<^verbatim>\<open>assignMergeValue\<close> for a source property \<open>k\<close> that holds \<open>srcValue\<close>.\<close>

definition mergedAt :: "obj \<Rightarrow> string \<Rightarrow> jsval \<Rightarrow> jsval" where
  "mergedAt object k srcValue =
     (if hiddenFromSafeGet k srcValue then mergeValue (safeGet object k) JUndefined
      else mergeValue (safeGet object k) srcValue)"

text \<open>
  The string \<^verbatim>\<open>remainder || kind\<close> that \<^verbatim>\<open>splitPath\<close> splits into groups: what follows the first
  match of the root separator when that is not empty, the whole path otherwise.
\<close>

definition groupsSource :: "string \<Rightarrow> RegExp \<Rightarrow> string" where
  "groupsSource kind rootSeparator =
     (let remainder = nthOpt (jsSplit kind rootSeparator (Some 2)) 1
      in if truthyStr remainder then the remainder else kind)"

text \<open>
  The identifier the reduce of the chain gives a group, as a function of its parent and its
  name: \<^verbatim>\<open>sanitize(parent ? `${parent}-${name}` : name)\<close>.
\<close>

definition idOf :: "(string \<Rightarrow> string) \<Rightarrow> jsval \<Rightarrow> string \<Rightarrow> string" where
  "idOf sanitize parent name = sanitize (if truthy parent then toStringJs parent @ ''-'' @ name else name)"


text \<open>The mappings of the examples: after one record of the kind \<^verbatim>\<open>UI\<close>, and after the records of
  the kinds \<^verbatim>\<open>UI/Button\<close> and \<^verbatim>\<open>UI/Input\<close>.\<close>

definition oneHash :: StoriesHash where
  "oneHash =
     \<lparr> entries =
     [(''ui'', [(''name'', JStr ''UI''), (''id'', JStr ''ui''), (''parent'', JBool False), (''depth'', JNum 0),
                (''children'', JArr [JStr ''ui--a'']), (''isComponent'', JBool True),
                (''isRoot'', JBool False)]),
      (''ui--a'', [(''id'', JStr ''ui--a''), (''name'', JStr ''A''), (''kind'', JStr ''UI''),
                   (''parameters'', parametersObj exampleParameters), (''parent'', JStr ''ui'')])],
       prototype = None \<rparr>"

definition scenarioHash1 :: StoriesHash where
  "scenarioHash1 =
     \<lparr> entries =
     [(''ui'', [(''name'', JStr ''UI''), (''id'', JStr ''ui''), (''parent'', JBool False), (''depth'', JNum 0),
                (''children'', JArr [JStr ''ui-button'']), (''isComponent'', JBool False),
                (''isRoot'', JBool False)]),
      (''ui-button'', [(''name'', JStr ''Button''), (''id'', JStr ''ui-button''), (''parent'', JStr ''ui''),
                (''depth'', JNum 1), (''children'', JArr [JStr ''ui-button--a'']), (''isComponent'', JBool True),
                (''isRoot'', JBool False)]),
      (''ui-button--a'', [(''id'', JStr ''ui-button--a''), (''name'', JStr ''A''), (''kind'', JStr ''UI/Button''),
                   (''parameters'', parametersObj exampleParameters), (''parent'', JStr ''ui-button'')])],
       prototype = None \<rparr>"

definition scenarioHash :: StoriesHash where
  "scenarioHash =
     \<lparr> entries =
     [(''ui'', [(''name'', JStr ''UI''), (''id'', JStr ''ui''), (''parent'', JBool False), (''depth'', JNum 0),
                (''children'', JArr [JStr ''ui-button'', JStr ''ui-input'']), (''isComponent'', JBool False),
                (''isRoot'', JBool False)]),
      (''ui-button'', [(''name'', JStr ''Button''), (''id'', JStr ''ui-button''), (''parent'', JStr ''ui''),
                (''depth'', JNum 1), (''children'', JArr [JStr ''ui-button--a'']), (''isComponent'', JBool True),
                (''isRoot'', JBool False)]),
      (''ui-button--a'', [(''id'', JStr ''ui-button--a''), (''name'', JStr ''A''), (''kind'', JStr ''UI/Button''),
                   (''parameters'', parametersObj exampleParameters), (''parent'', JStr ''ui-button'')]),
      (''ui-input'', [(''name'', JStr ''Input''), (''id'', JStr ''ui-input''), (''parent'', JStr ''ui''),
                (''depth'', JNum 1), (''children'', JArr [JStr ''ui-input--a'']), (''isComponent'', JBool True),
                (''isRoot'', JBool False)]),
      (''ui-input--a'', [(''id'', JStr ''ui-input--a''), (''name'', JStr ''A''), (''kind'', JStr ''UI/Input''),
                   (''parameters'', parametersObj exampleParameters), (''parent'', JStr ''ui-input'')])],
       prototype = None \<rparr>"

text \<open>The mapping after one record of the kind \<^verbatim>\<open>Docs\<close>.\<close>

definition docsHash :: StoriesHash where
  "docsHash =
     \<lparr> entries =
     [(''docs'', [(''name'', JStr ''Docs''), (''id'', JStr ''docs''), (''parent'', JBool False), (''depth'', JNum 0),
                (''children'', JArr [JStr ''docs--b'']), (''isComponent'', JBool True),
                (''isRoot'', JBool False)]),
      (''docs--b'', [(''id'', JStr ''docs--b''), (''name'', JStr ''B''), (''kind'', JStr ''Docs''),
                   (''parameters'', parametersObj exampleParameters), (''parent'', JStr ''docs'')])],
       prototype = None \<rparr>"





section \<open>Evaluation of the split\<close>

declare splitLoop.simps [simp del]
declare stringOfNat.simps [simp del]
declare separatorsOnly.simps [simp del]

lemma splitLoop_total: "All splitLoop_dom"
  by (relation "measures [\<lambda>(r, S, lim, p, q, A). length S - q, \<lambda>(r, S, lim, p, q, A). if p = q then 0 else 1]")
     (auto split: if_splits)

lemma exec_charClass:
  "exec (charClass pat cs) S q = (if q < length S \<and> S ! q \<in> set cs then Some (1, []) else None)"
  by (simp add: charClass_def)

lemma splitLoop_no_match:
  "(\<And>q'. q \<le> q' \<Longrightarrow> q' < length S \<Longrightarrow> exec r S q' = None) \<Longrightarrow>
   splitLoop r S lim p q A = A @ [Some (substring S p (length S))]"
proof (induction "length S - q" arbitrary: q)
  case 0
  then show ?case by (simp add: splitLoop.simps)
next
  case (Suc n)
  then have "q < length S" by simp
  moreover have "exec r S q = None" using Suc.prems \<open>q < length S\<close> by simp
  moreover have "splitLoop r S lim p (Suc q) A = A @ [Some (substring S p (length S))]"
    using Suc.hyps(1)[of "Suc q"] Suc.hyps(2) Suc.prems by simp
  ultimately show ?case by (subst splitLoop.simps) simp
qed

lemma jsSplit_no_match:
  assumes "S \<noteq> []" and "\<And>q. q < length S \<Longrightarrow> exec r S q = None"
  shows "jsSplit S r None = [Some S]" and "jsSplit S r (Some 2) = [Some S]"
  using assms by (simp_all add: jsSplit_def splitLoop_no_match substring_def)

lemma filterTruthy_nonempty: "s \<in> set (filterTruthy xs) \<Longrightarrow> s \<noteq> []"
  by (induction xs rule: filterTruthy.induct) (auto split: if_splits)

lemma pushCaptures_prefix: "\<exists>B. fst (pushCaptures lim A cs) = A @ B"
proof (induction cs arbitrary: A)
  case Nil
  then show ?case by simp
next
  case (Cons c cs)
  obtain B where "fst (pushCaptures lim (A @ [c]) cs) = (A @ [c]) @ B" using Cons.IH by blast
  then show ?case by (auto simp add: Let_def)
qed

lemma splitLoop_prefix: "\<exists>B. splitLoop r S lim p q A = A @ B"
proof (induction r S lim p q A rule: splitLoop.induct)
  case (1 r S lim p q A)
  show ?case
  proof (cases "q < length S")
    case False
    then show ?thesis by (subst splitLoop.simps) simp
  next
    case True
    show ?thesis
    proof (cases "exec r S q")
      case None
      then show ?thesis using 1(1)[OF True None] True by (subst splitLoop.simps) simp
    next
      case (Some m)
      obtain n caps where m: "m = (n, caps)" by (cases m)
      define e where "e = min (q + n) (length S)"
      show ?thesis
      proof (cases "e = p")
        case True
        then show ?thesis using 1(2)[OF \<open>q < length S\<close> Some m[symmetric] e_def True] \<open>q < length S\<close> Some m e_def
          by (subst splitLoop.simps) (simp add: Let_def)
      next
        case False
        define A1 where "A1 = A @ [Some (substring S p q)]"
        show ?thesis
        proof (cases "length A1 = lim")
          case True
          then show ?thesis using \<open>q < length S\<close> Some m e_def False A1_def
            by (subst splitLoop.simps) (simp add: Let_def)
        next
          case nl: False
          obtain A2 full where pc: "pushCaptures lim A1 caps = (A2, full)" by (cases "pushCaptures lim A1 caps")
          obtain B where B: "A2 = A1 @ B" using pushCaptures_prefix[of lim A1 caps] pc by auto
          show ?thesis
          proof (cases full)
            case True
            then show ?thesis using \<open>q < length S\<close> Some m e_def False A1_def nl pc B
              by (subst splitLoop.simps) (simp add: Let_def)
          next
            case nf: False
            obtain C where "splitLoop r S lim e e A2 = A2 @ C"
              using 1(3)[OF \<open>q < length S\<close> Some m[symmetric] e_def False A1_def nl pc[symmetric] ] nf by blast
            then show ?thesis using \<open>q < length S\<close> Some m e_def False A1_def nl pc B nf
              by (subst splitLoop.simps) (simp add: Let_def)
          qed
        qed
      qed
    qed
  qed
qed

lemma splitLoop_first:
  assumes "S \<noteq> []" "q = 0 \<Longrightarrow> exec r S 0 = None"
  shows "\<exists>s B. splitLoop r S lim 0 q [] = Some s # B \<and> s \<noteq> []"
  using assms(2)
proof (induction "length S - q" arbitrary: q)
  case 0
  then have "\<not> q < length S" by simp
  then show ?case using assms(1) by (subst splitLoop.simps) (simp add: substring_def)
next
  case (Suc n)
  then have lt: "q < length S" by simp
  show ?case
  proof (cases "exec r S q")
    case None
    have "\<exists>s B. splitLoop r S lim 0 (Suc q) [] = Some s # B \<and> s \<noteq> []"
      using Suc.hyps(1)[of "Suc q"] Suc.hyps(2) by simp
    then show ?thesis using lt None by (subst splitLoop.simps) simp
  next
    case (Some m)
    obtain k caps where m: "m = (k, caps)" by (cases m)
    have q0: "q \<noteq> 0"
    proof
      assume "q = 0"
      then show False using Some Suc.prems by simp
    qed
    define e where "e = min (q + k) (length S)"
    have e0: "e \<noteq> 0" using q0 lt by (auto simp add: e_def min_def)
    define A1 where "A1 = [Some (substring S 0 q)]"
    have ne: "substring S 0 q \<noteq> []" using q0 lt by (auto simp add: substring_def)
    obtain A2 full where pc: "pushCaptures lim A1 caps = (A2, full)" by (cases "pushCaptures lim A1 caps")
    obtain B where B: "A2 = A1 @ B" using pushCaptures_prefix[of lim A1 caps] pc by auto
    obtain C where C: "splitLoop r S lim e e A2 = A2 @ C" using splitLoop_prefix by blast
    have unfold: "splitLoop r S lim 0 q [] =
        (if length A1 = lim then A1 else if full then A2 else splitLoop r S lim e e A2)"
      using lt Some m q0 pc by (subst splitLoop.simps) (auto simp add: Let_def e_def A1_def min_def)
    show ?thesis
      unfolding unfold using ne B C by (simp add: A1_def)
  qed
qed

lemma jsSplit_first:
  assumes "S \<noteq> []" "exec g S 0 = None"
  shows "\<exists>s B. jsSplit S g None = Some s # B \<and> s \<noteq> []"
  using splitLoop_first[OF assms(1), of 0 g 4294967295] assms by (simp add: jsSplit_def)

lemma groups_splitPath:
  "groups (splitPath p r g) = filterTruthy (jsSplit (groupsSource p r) g None)"
  by (simp add: splitPath_def groupsSource_def Let_def)

lemma groupsSource_nonempty: "p \<noteq> [] \<Longrightarrow> groupsSource p r \<noteq> []"
  by (cases "nthOpt (jsSplit p r (Some 2)) 1") (auto simp add: groupsSource_def Let_def)

lemma groupsSource_no_root:
  assumes "\<forall>q < length p. exec r p q = None"
  shows "groupsSource p r = p" and "root (splitPath p r g) = None"
proof -
  have "nthOpt (jsSplit p r (Some 2)) 1 = None"
  proof (cases "p = []")
    case True
    then show ?thesis by (simp add: jsSplit_def nthOpt_def split: option.splits)
  next
    case False
    then show ?thesis using jsSplit_no_match(2)[of p r] assms by (simp add: nthOpt_def)
  qed
  then show "groupsSource p r = p" and "root (splitPath p r g) = None"
    by (simp_all add: groupsSource_def splitPath_def Let_def)
qed

lemma filterTruthy_append: "filterTruthy (xs @ ys) = filterTruthy xs @ filterTruthy ys"
  by (induction xs rule: filterTruthy.induct) auto

lemma pushCaptures_full: "pushCaptures lim A cs = (A2, True) \<Longrightarrow> length A2 = lim"
  by (induction cs arbitrary: A) (auto simp add: Let_def split: if_splits)

lemma pushCaptures_not_full: "pushCaptures lim A cs = (A2, False) \<Longrightarrow> A2 = A @ cs"
proof (induction cs arbitrary: A)
  case Nil
  then show ?case by simp
next
  case (Cons c cs)
  from Cons.prems have "pushCaptures lim (A @ [c]) cs = (A2, False)"
    by (simp add: Let_def split: if_splits)
  then have "A2 = (A @ [c]) @ cs" by (rule Cons.IH)
  then show ?case by simp
qed

lemma pushCaptures_take: "\<exists>k. fst (pushCaptures lim A cs) = A @ take k cs"
proof (induction cs arbitrary: A)
  case Nil
  then show ?case by simp
next
  case (Cons c cs)
  obtain k where k: "fst (pushCaptures lim (A @ [c]) cs) = (A @ [c]) @ take k cs" using Cons.IH by blast
  show ?case
  proof (cases "length (A @ [c]) = lim")
    case True
    then have "fst (pushCaptures lim A (c # cs)) = A @ take 1 (c # cs)" by (simp add: Let_def)
    then show ?thesis by blast
  next
    case False
    then have "fst (pushCaptures lim A (c # cs)) = A @ take (Suc k) (c # cs)" using k by (simp add: Let_def)
    then show ?thesis by blast
  qed
qed

lemma filterTruthy_take: "filterTruthy xs = [] \<Longrightarrow> filterTruthy (take k xs) = []"
proof (induction xs arbitrary: k rule: filterTruthy.induct)
  case 1
  then show ?case by simp
next
  case (2 xs)
  then show ?case by (cases k) auto
next
  case (3 s xs)
  then show ?case by (cases k) (auto split: if_splits)
qed

lemma splitLoop_piece:
  assumes "p < q" "p < length S"
  shows "filterTruthy (splitLoop r S lim p q A) \<noteq> []"
  using assms(1)
proof (induction "length S - q" arbitrary: q)
  case 0
  then have "\<not> q < length S" by simp
  then show ?case using assms(2) by (subst splitLoop.simps) (simp add: substring_def filterTruthy_append)
next
  case (Suc n)
  then have lt: "q < length S" by simp
  show ?case
  proof (cases "exec r S q")
    case None
    have "filterTruthy (splitLoop r S lim p (Suc q) A) \<noteq> []"
      using Suc.hyps(1)[of "Suc q"] Suc.hyps(2) Suc.prems by simp
    then show ?thesis using lt None by (subst splitLoop.simps) simp
  next
    case (Some m)
    obtain k caps where m: "m = (k, caps)" by (cases m)
    define e where "e = min (q + k) (length S)"
    have ep: "e \<noteq> p" using Suc.prems lt by (auto simp add: e_def min_def)
    define A1 where "A1 = A @ [Some (substring S p q)]"
    have ne: "substring S p q \<noteq> []" using Suc.prems assms(2) by (auto simp add: substring_def)
    then have f1: "filterTruthy A1 \<noteq> []" by (simp add: A1_def filterTruthy_append)
    obtain A2 full where pc: "pushCaptures lim A1 caps = (A2, full)" by (cases "pushCaptures lim A1 caps")
    obtain B where B: "A2 = A1 @ B" using pushCaptures_prefix[of lim A1 caps] pc by auto
    obtain C where C: "splitLoop r S lim e e A2 = A2 @ C" using splitLoop_prefix by blast
    have unfold: "splitLoop r S lim p q A =
        (if length A1 = lim then A1 else if full then A2 else splitLoop r S lim e e A2)"
      using lt Some m ep pc by (subst splitLoop.simps) (auto simp add: Let_def e_def A1_def)
    show ?thesis
      unfolding unfold using f1 B C by (simp add: filterTruthy_append)
  qed
qed

lemma splitLoop_at:
  assumes "p < length S"
  shows "splitLoop r S lim p p A =
     (case exec r S p of
        None \<Rightarrow> splitLoop r S lim p (Suc p) A
      | Some (n, caps) \<Rightarrow>
          if n = 0 then splitLoop r S lim p (Suc p) A
          else if length (A @ [Some []]) = lim then A @ [Some []]
          else (case pushCaptures lim (A @ [Some []]) caps of
                  (A2, full) \<Rightarrow> if full then A2 else splitLoop r S lim (min (p + n) (length S)) (min (p + n) (length S)) A2))"
  using assms
  by (subst splitLoop.simps) (auto simp add: Let_def substring_def min_def split: option.splits prod.splits)

lemma splitLoop_separatorsOnly:
  assumes "filterTruthy A = []"
  shows "separatorsOnly r S p \<Longrightarrow> filterTruthy (splitLoop r S lim p p A) = []"
  using assms
proof (induction "length S - p" arbitrary: p A rule: less_induct)
  case less
  show ?case
  proof (cases "p < length S")
    case False
    then show ?thesis using less.prems(2) by (subst splitLoop.simps) (simp add: substring_def filterTruthy_append)
  next
    case True
    from less.prems(1) True obtain n caps where ex: "exec r S p = Some (n, caps)" and n: "0 < n"
      and c: "filterTruthy caps = []" and so: "separatorsOnly r S (min (p + n) (length S))"
      by (subst (asm) separatorsOnly.simps) (auto split: option.splits if_splits)
    define e where "e = min (p + n) (length S)"
    have ep: "p < e" using n True by (simp add: e_def)
    define A1 where "A1 = A @ [Some []]"
    have f1: "filterTruthy A1 = []" using less.prems(2) by (simp add: A1_def filterTruthy_append)
    obtain A2 full where pc: "pushCaptures lim A1 caps = (A2, full)" by (cases "pushCaptures lim A1 caps")
    obtain k where k: "A2 = A1 @ take k caps" using pushCaptures_take[of lim A1 caps] pc by auto
    have f2: "filterTruthy A2 = []" using f1 c by (simp add: k filterTruthy_append filterTruthy_take)
    have ih: "filterTruthy (splitLoop r S lim e e A2) = []"
      using less.hyps[of e A2] ep True so f2 by (simp add: e_def)
    have unfold: "splitLoop r S lim p p A =
        (if length A1 = lim then A1 else if full then A2 else splitLoop r S lim e e A2)"
      using splitLoop_at[OF True, of r lim A] ex n pc by (simp add: A1_def e_def)
    show ?thesis unfolding unfold using f1 f2 ih by simp
  qed
qed

lemma splitLoop_not_separatorsOnly:
  "\<not> separatorsOnly r S p \<Longrightarrow> length (splitLoop r S lim p p A) < lim \<Longrightarrow>
   filterTruthy (splitLoop r S lim p p A) \<noteq> []"
proof (induction "length S - p" arbitrary: p A rule: less_induct)
  case less
  have lt: "p < length S" using less.prems(1) by (subst (asm) separatorsOnly.simps) (simp split: if_splits)
  show ?case
  proof (cases "exec r S p")
    case None
    then show ?thesis using splitLoop_at[OF lt, of r lim A] splitLoop_piece[of p "Suc p" S r lim A] lt by simp
  next
    case (Some m)
    obtain n caps where m: "m = (n, caps)" by (cases m)
    show ?thesis
    proof (cases "n = 0")
      case True
      then show ?thesis using Some m splitLoop_at[OF lt, of r lim A] splitLoop_piece[of p "Suc p" S r lim A] lt
        by simp
    next
      case False
      define e where "e = min (p + n) (length S)"
      have ep: "p < e" using False lt by (simp add: e_def)
      define A1 where "A1 = A @ [Some []]"
      obtain A2 full where pc: "pushCaptures lim A1 caps = (A2, full)" by (cases "pushCaptures lim A1 caps")
      have unfold: "splitLoop r S lim p p A =
          (if length A1 = lim then A1 else if full then A2 else splitLoop r S lim e e A2)"
        using splitLoop_at[OF lt, of r lim A] Some m False pc by (simp add: A1_def e_def)
      have n1: "length A1 \<noteq> lim" using less.prems(2) unfolding unfold by (auto split: if_splits)
      have nf: "\<not> full"
      proof
        assume full
        then have "length A2 = lim" using pushCaptures_full[of lim A1 caps A2] pc by simp
        then show False using less.prems(2) n1 \<open>full\<close> unfolding unfold by simp
      qed
      have A2: "A2 = A1 @ caps" using pushCaptures_not_full[of lim A1 caps A2] pc nf by simp
      have res: "splitLoop r S lim p p A = splitLoop r S lim e e A2" unfolding unfold using n1 nf by simp
      show ?thesis
      proof (cases "filterTruthy caps = []")
        case True
        then have "\<not> separatorsOnly r S e"
          using less.prems(1) lt Some m False by (subst (asm) separatorsOnly.simps) (simp add: e_def)
        then have "filterTruthy (splitLoop r S lim e e A2) \<noteq> []"
          using less.hyps[of e A2] ep lt less.prems(2) unfolding res by (simp add: e_def)
        then show ?thesis unfolding res .
      next
        case False
        obtain C where C: "splitLoop r S lim e e A2 = A2 @ C" using splitLoop_prefix by blast
        have "filterTruthy A2 \<noteq> []" using False by (simp add: A2 filterTruthy_append)
        then show ?thesis using C by (simp add: res filterTruthy_append)
      qed
    qed
  qed
qed

lemma groups_separatorsOnly:
  assumes "separatorsOnly g (groupsSource p r) 0"
  shows "groups (splitPath p r g) = []"
proof (cases "groupsSource p r = []")
  case True
  then show ?thesis by (simp add: groups_splitPath jsSplit_def split: option.splits)
next
  case False
  then have "jsSplit (groupsSource p r) g None = splitLoop g (groupsSource p r) 4294967295 0 0 []"
    by (simp add: jsSplit_def)
  then show ?thesis
    using splitLoop_separatorsOnly[of "[]" g "groupsSource p r" 0 4294967295] assms
    by (simp add: groups_splitPath)
qed

lemma groups_not_separatorsOnly:
  assumes "p \<noteq> []" "length (jsSplit (groupsSource p r) g None) < 4294967295"
    and "\<not> separatorsOnly g (groupsSource p r) 0"
  shows "groups (splitPath p r g) \<noteq> []"
proof -
  have "groupsSource p r \<noteq> []" using assms(1) by (rule groupsSource_nonempty)
  then have js: "jsSplit (groupsSource p r) g None = splitLoop g (groupsSource p r) 4294967295 0 0 []"
    by (simp add: jsSplit_def)
  have "filterTruthy (splitLoop g (groupsSource p r) 4294967295 0 0 []) \<noteq> []"
    using splitLoop_not_separatorsOnly[of g "groupsSource p r" 0 4294967295 "[]"] assms(2,3) unfolding js by simp
  then show ?thesis by (simp add: groups_splitPath js)
qed

lemma splitPath_slash:
  "splitPath ''/'' defaultRootSeparator defaultGroupSeparator = \<lparr> root = None, groups = [] \<rparr>"
  by (simp add: splitPath_def jsSplit_def defaultGroupSeparator_def defaultRootSeparator_def
      exec_charClass splitLoop.simps Let_def substring_def nthOpt_def)

section \<open>The split of a path (C5)\<close>

text \<open>
  C5, as stated, fails: the path \<^verbatim>\<open>/\<close> is not empty, and with the default separators its
  split has no group, since \<^verbatim>\<open>.filter(i => !!i)\<close> drops the two empty pieces around the
  separator.
\<close>

theorem splitPath_groups_counterexample:
  "''/'' \<noteq> [] \<and> groups (splitPath ''/'' defaultRootSeparator defaultGroupSeparator) = []"
  by (simp add: splitPath_slash)

text \<open>
  C5, amended: for every path \<open>p\<close> and every pair of separators, \<open>splitPath\<close> returns a result:
  the loop of the split terminates on every input (its recursion is well-founded), and
  nothing in \<open>splitPath\<close> throws. No group it returns is the empty string. The groups are
  split off the string \<^verbatim>\<open>remainder || kind\<close> (\<open>groupsSource\<close>), which is \<open>p\<close> itself when the root
  separator matches nowhere in \<open>p\<close> (the root is \<^verbatim>\<open>null\<close> then). There is no group when that
  string is made of separator matches only (consecutive non-empty matches of the group
  separator that capture no text, from its start to its end, as in \<^verbatim>\<open>/\<close>); and for a path \<open>p\<close>
  that is not empty this is the only case: otherwise there is at least one group (the
  split staying below the limit of \<open>2^32 - 1\<close> pieces that \<^verbatim>\<open>split\<close> has by default). In
  particular there is at least one group whenever \<open>p\<close> is not empty and the group separator
  does not match at the start of that string; and when \<open>p\<close> is not empty and neither separator
  matches anywhere in \<open>p\<close>, the root is \<^verbatim>\<open>null\<close> and \<open>p\<close> is the one group.
\<close>

theorem splitPath_groups:
  "splitLoop_dom (r', S, lim, a, b, A) \<and>
   (\<forall>s \<in> set (groups (splitPath p r g)). s \<noteq> []) \<and>
   (separatorsOnly g (groupsSource p r) 0 \<longrightarrow> groups (splitPath p r g) = []) \<and>
   (p \<noteq> [] \<and> length (jsSplit (groupsSource p r) g None) < 4294967295 \<and>
    \<not> separatorsOnly g (groupsSource p r) 0 \<longrightarrow> groups (splitPath p r g) \<noteq> []) \<and>
   (p \<noteq> [] \<and> exec g (groupsSource p r) 0 = None \<longrightarrow> groups (splitPath p r g) \<noteq> []) \<and>
   ((\<forall>q < length p. exec r p q = None) \<longrightarrow> root (splitPath p r g) = None \<and> groupsSource p r = p) \<and>
   (p \<noteq> [] \<and> (\<forall>q < length p. exec r p q = None \<and> exec g p q = None) \<longrightarrow>
      splitPath p r g = \<lparr> root = None, groups = [p] \<rparr>)"
proof (intro conjI impI ballI)
  show "splitLoop_dom (r', S, lim, a, b, A)" using splitLoop_total by simp
next
  fix s assume "s \<in> set (groups (splitPath p r g))"
  then show "s \<noteq> []" by (simp add: groups_splitPath filterTruthy_nonempty)
next
  assume "separatorsOnly g (groupsSource p r) 0"
  then show "groups (splitPath p r g) = []" by (rule groups_separatorsOnly)
next
  assume "p \<noteq> [] \<and> length (jsSplit (groupsSource p r) g None) < 4294967295 \<and>
    \<not> separatorsOnly g (groupsSource p r) 0"
  then show "groups (splitPath p r g) \<noteq> []" using groups_not_separatorsOnly by blast
next
  assume h: "p \<noteq> [] \<and> exec g (groupsSource p r) 0 = None"
  then obtain s B where "jsSplit (groupsSource p r) g None = Some s # B" "s \<noteq> []"
    using jsSplit_first[OF groupsSource_nonempty, of p g r] by blast
  then show "groups (splitPath p r g) \<noteq> []" by (simp add: groups_splitPath)
next
  assume "\<forall>q < length p. exec r p q = None"
  then show "root (splitPath p r g) = None" by (rule groupsSource_no_root(2))
next
  assume "\<forall>q < length p. exec r p q = None"
  then show "groupsSource p r = p" by (rule groupsSource_no_root(1))
next
  assume h: "p \<noteq> [] \<and> (\<forall>q < length p. exec r p q = None \<and> exec g p q = None)"
  then have "jsSplit p r (Some 2) = [Some p]" "jsSplit p g None = [Some p]"
    by (simp_all add: jsSplit_no_match)
  then show "splitPath p r g = \<lparr> root = None, groups = [p] \<rparr>"
    using h by (simp add: splitPath_def nthOpt_def)
qed

theorem splitPath_groups_witness:
  "''UI/Button'' \<noteq> [] \<and> exec defaultGroupSeparator (groupsSource ''UI/Button'' defaultRootSeparator) 0 = None \<and>
   groups (splitPath ''UI/Button'' defaultRootSeparator defaultGroupSeparator) \<noteq> [] \<and>
   groupsSource ''UI/Button'' defaultRootSeparator = ''UI/Button'' \<and>
   splitPath ''UI'' defaultRootSeparator defaultGroupSeparator = \<lparr> root = None, groups = [''UI''] \<rparr> \<and>
   separatorsOnly defaultGroupSeparator (groupsSource ''/./'' defaultRootSeparator) 0 \<and>
   groups (splitPath ''/./'' defaultRootSeparator defaultGroupSeparator) = []"
  using splitPath_groups [where p = "''UI/Button''" and r = defaultRootSeparator and g = defaultGroupSeparator]
    splitPath_groups [where p = "''UI''" and r = defaultRootSeparator and g = defaultGroupSeparator]
    splitPath_groups [where p = "''/./''" and r = defaultRootSeparator and g = defaultGroupSeparator]
  by (simp add: defaultGroupSeparator_def defaultRootSeparator_def exec_charClass less_Suc_eq
      groupsSource_def jsSplit_def splitLoop.simps substring_def nthOpt_def separatorsOnly.simps)

section \<open>A record without a group (C4)\<close>

text \<open>
  C4: \<^verbatim>\<open>setStories\<close> should return for every batch, also for a record whose path has no group
  and no root. It does not: the chain of a record with the path \<^verbatim>\<open>/\<close> is empty, reading
  \<^verbatim>\<open>rootAndGroups[rootAndGroups.length - 1].id\<close> throws, no record after it is processed and
  the store is left as it was.
\<close>

theorem setStories_empty_chain_throws:
  "setStories sanitize (exampleStory i n ''/'' # rest) s =
     \<lparr> returned = Inl TypeError, navigated = [], final = s \<rparr>"
  by (simp add: setStories_def storyStep_def exampleStory_def exampleParameters_def splitPath_slash
      buildChain_def chainNames_def)

theorem setStories_empty_chain_throws_witness:
  "setStories specSanitize [exampleStory ''x'' ''A'' ''/''] (emptyState None (Some ''story'')) =
     \<lparr> returned = Inl TypeError, navigated = [], final = emptyState None (Some ''story'') \<rparr>"
  by (rule setStories_empty_chain_throws)

section \<open>Properties of an object\<close>

lemma lookupKey_replaceKey:
  "lookupKey (replaceKey ps k v) k' = (if k = k' \<and> hasKey ps k then v else lookupKey ps k')"
  by (induction ps) (auto split: if_splits)

lemma hasKey_replaceKey: "hasKey (replaceKey ps k v) k' = hasKey ps k'"
  by (induction ps) (auto split: if_splits)

lemma lookupKey_insertKey:
  "\<not> hasKey ps k \<Longrightarrow> lookupKey (insertKey ps k v) k' = (if k = k' then v else lookupKey ps k')"
  by (induction ps) (auto split: if_splits)

lemma hasKey_insertKey: "hasKey (insertKey ps k v) k' = (k = k' \<or> hasKey ps k')"
  by (induction ps) (auto split: if_splits)

lemma lookupKey_setKey: "lookupKey (setKey ps k v) k' = (if k = k' then v else lookupKey ps k')"
  by (simp add: setKey_def lookupKey_replaceKey lookupKey_insertKey)

lemma hasKey_setKey: "hasKey (setKey ps k v) k' = (k = k' \<or> hasKey ps k')"
  by (auto simp add: setKey_def hasKey_replaceKey hasKey_insertKey)

lemma lookupKey_mem: "hasKey ps k \<Longrightarrow> (k, lookupKey ps k) \<in> set ps"
  by (induction ps) (auto split: if_splits)

section \<open>Scalars under merge (C3)\<close>

lemma isUndefined_iff: "isUndefined v \<longleftrightarrow> v = JUndefined"
  by (cases v) simp_all

lemma sameFunction_iff: "sameFunction x y \<longleftrightarrow> (\<exists>f. x = JFunction f \<and> y = JFunction f)"
  by (cases x; cases y) auto

lemma lookupKey_absent: "\<not> hasKey ps k \<Longrightarrow> lookupKey ps k = JUndefined"
  by (induction ps) (auto split: if_splits)

lemma lookupKey_assignMergeValue_other:
  "k \<noteq> k' \<Longrightarrow> lookupKey (assignMergeValue t k v) k' = lookupKey t k'"
  by (simp add: assignMergeValue_def lookupKey_setKey)

lemma hasKey_assignMergeValue_other:
  "k \<noteq> k' \<Longrightarrow> hasKey (assignMergeValue t k v) k' = hasKey t k'"
  by (simp add: assignMergeValue_def hasKey_setKey)

lemma lookupKey_assignMergeValue_same:
  "lookupKey (assignMergeValue t k v) k =
     (if (isUndefined v \<and> inObject t k) \<or>
         (\<not> isUndefined v \<and> \<not> hasKey t k \<and> sameFunction (objectPrototypeGet k) v)
      then lookupKey t k else v)"
  by (simp add: assignMergeValue_def lookupKey_setKey)

lemma mergeProps_other:
  "k \<notin> fst ` set ps \<Longrightarrow>
   lookupKey (mergeProps t ps) k = lookupKey t k \<and> hasKey (mergeProps t ps) k = hasKey t k"
  by (induction ps arbitrary: t) (auto simp add: lookupKey_assignMergeValue_other hasKey_assignMergeValue_other)

lemma mergeProps_Cons:
  "mergeProps object ((k, srcValue) # ps) = mergeProps (assignMergeValue object k (mergedAt object k srcValue)) ps"
  by (simp add: mergedAt_def)

lemma mergeProps_at:
  "distinct (map fst ps) \<Longrightarrow> (k, sv) \<in> set ps \<Longrightarrow>
   lookupKey (mergeProps t ps) k =
     (if (isUndefined (mergedAt t k sv) \<and> inObject t k) \<or>
         (\<not> isUndefined (mergedAt t k sv) \<and> \<not> hasKey t k \<and>
          sameFunction (objectPrototypeGet k) (mergedAt t k sv))
      then lookupKey t k
      else mergedAt t k sv)"
proof (induction ps arbitrary: t)
  case Nil
  then show ?case by simp
next
  case (Cons a ps)
  obtain k' v' where a: "a = (k', v')" by (cases a)
  show ?case
  proof (cases "k' = k")
    case True
    with Cons.prems a have "v' = sv" "k \<notin> fst ` set ps" by (auto simp: image_iff)
    then show ?thesis using a True
      by (simp add: mergeProps_Cons mergeProps_other lookupKey_assignMergeValue_same del: mergeProps.simps(2))
  next
    case False
    with Cons.prems a have m: "(k, sv) \<in> set ps" and d: "distinct (map fst ps)" by auto
    define t' where "t' = assignMergeValue t k' (mergedAt t k' v')"
    have l: "lookupKey t' k = lookupKey t k" and h: "hasKey t' k = hasKey t k"
      using False by (simp_all add: t'_def lookupKey_assignMergeValue_other hasKey_assignMergeValue_other)
    have io: "inObject t' k = inObject t k" by (simp add: inObject_def h)
    have sg: "mergedAt t' k sv = mergedAt t k sv" by (simp add: mergedAt_def safeGet_def l)
    have "lookupKey (mergeProps t' ps) k =
        (if (isUndefined (mergedAt t k sv) \<and> inObject t k) \<or>
            (\<not> isUndefined (mergedAt t k sv) \<and> \<not> hasKey t k \<and>
             sameFunction (objectPrototypeGet k) (mergedAt t k sv))
         then lookupKey t k
         else mergedAt t k sv)"
      using Cons.IH[OF d m, of t'] unfolding l h io sg .
    then show ?thesis using a by (simp add: t'_def mergeProps_Cons del: mergeProps.simps(2))
  qed
qed

lemma mergeValue_scalar: "isScalar ov \<Longrightarrow> isScalar sv \<Longrightarrow> mergeValue ov sv = sv"
  by (cases sv; cases ov) (simp_all add: customizer_def)

lemma sameFunction_scalar: "isScalar v \<Longrightarrow> \<not> sameFunction x v"
  by (auto simp add: sameFunction_iff)

lemma mergedAt_scalar:
  assumes "isScalar (lookupKey t k)" "isScalar v"
  shows "mergedAt t k v = v"
proof -
  have h: "\<not> hiddenFromSafeGet k v" using assms(2) by (cases v) (simp_all add: hiddenFromSafeGet_def)
  have "isScalar (safeGet t k)" using assms(1) by (simp add: safeGet_def)
  then have "mergeValue (safeGet t k) v = v" using assms(2) by (rule mergeValue_scalar)
  then show ?thesis using h by (simp add: mergedAt_def)
qed

text \<open>
  C3, as stated, fails: with the scalar \<^verbatim>\<open>0\<close> on the left and the scalar \<^verbatim>\<open>1\<close> on the right at
  the key \<^verbatim>\<open>depth\<close>, the merged object holds the incoming \<^verbatim>\<open>1\<close>. The customizer answers
  \<^verbatim>\<open>undefined\<close> for two scalars, and \<^verbatim>\<open>mergeWith\<close> then assigns the value of the later source.
\<close>

theorem merge_scalar_counterexample:
  "lookupKey [(''depth'', JNum 0)] ''depth'' = JNum 0 \<and>
   lookupKey (merge [(''depth'', JNum 0)] [(''depth'', JNum 1)]) ''depth'' = JNum 1"
  by (simp add: merge_def assignMergeValue_def customizer_def setKey_def objectPrototypeGet_def
      objectPrototypeNames_def safeGet_def hiddenFromSafeGet_def)

text \<open>
  C3, amended: for \<^verbatim>\<open>merge(existing, incoming)\<close> and every key present on both sides whose two
  values are scalars, the merged object holds the incoming (right) value at that key; only
  when the incoming value is \<^verbatim>\<open>undefined\<close> does it hold the existing one. (The two objects have
  each key once, as every object has.)
\<close>

theorem merge_scalar:
  assumes "distinct (map fst a)" "distinct (map fst b)" "hasKey a k" "hasKey b k"
    and "isScalar (lookupKey a k)" "isScalar (lookupKey b k)"
  shows "lookupKey (merge a b) k = (if isUndefined (lookupKey b k) then lookupKey a k else lookupKey b k)"
proof -
  let ?t = "mergeProps [] a"
  have m0: "mergedAt [] k (lookupKey a k) = lookupKey a k"
    using assms(5) by (simp add: mergedAt_scalar)
  have ta: "lookupKey ?t k = lookupKey a k"
    using mergeProps_at[OF assms(1) lookupKey_mem[OF assms(3)], of "[]"] assms(5)
    unfolding m0
    by (auto simp add: sameFunction_scalar isUndefined_iff)
  have ab: "\<not> inObject ?t k \<Longrightarrow> lookupKey a k = JUndefined"
    using ta lookupKey_absent[of ?t k] by (simp add: inObject_def)
  have mv: "mergedAt ?t k (lookupKey b k) = lookupKey b k"
    using ta assms(5,6) by (simp add: mergedAt_scalar)
  show ?thesis
    unfolding merge_def
    using mergeProps_at[OF assms(2) lookupKey_mem[OF assms(4)], of ?t] ta ab assms(6)
    unfolding mv
    by (auto simp add: sameFunction_scalar isUndefined_iff)
qed

theorem merge_scalar_witness:
  "distinct (map fst [(''name'', JStr ''UI''), (''isComponent'', JBool False), (''children'', JArr [])]) \<and>
   distinct (map fst [(''isComponent'', JBool True), (''name'', JUndefined)]) \<and>
   lookupKey (merge [(''name'', JStr ''UI''), (''isComponent'', JBool False), (''children'', JArr [])]
                    [(''isComponent'', JBool True), (''name'', JUndefined)]) ''isComponent'' = JBool True"
  using merge_scalar [of "[(''name'', JStr ''UI''), (''isComponent'', JBool False), (''children'', JArr [])]"
      "[(''isComponent'', JBool True), (''name'', JUndefined)]" "''isComponent''"]
  by simp

section \<open>The chain of a split (C6)\<close>

lemma chainReduce_length:
  "length (chainReduce sanitize r len soFar index names) = length soFar + length names"
  by (induction names arbitrary: soFar index) (simp_all add: Let_def)

lemma chainReduce_prefix:
  "i < length soFar \<Longrightarrow> chainReduce sanitize r len soFar index names ! i = soFar ! i"
  by (induction names arbitrary: soFar index) (simp_all add: Let_def nth_append)

lemma chainReduce_nth:
  assumes "index = length soFar" "j < length names"
  shows "let c = chainReduce sanitize r len soFar index names; g = c ! (index + j) in
           group_name g = names ! j \<and>
           group_parent g = (if index + j = 0 then JBool False else JStr (group_id (c ! (index + j - 1)))) \<and>
           group_id g = idOf sanitize (group_parent g) (group_name g) \<and>
           group_depth g = index + j \<and>
           group_isComponent g = (int (index + j) = int len - 1) \<and>
           group_isRoot g = (truthyStr r \<and> index + j = 0) \<and>
           group_children g = []"
  using assms
proof (induction names arbitrary: soFar index j)
  case Nil
  then show ?case by simp
next
  case (Cons name names)
  define parent where "parent = (if index > 0 then JStr (group_id (soFar ! (index - 1))) else JBool False)"
  define result where "result = \<lparr> group_name = name,
     group_id = sanitize (if truthy parent then toStringJs parent @ ''-'' @ name else name),
     group_parent = parent, group_depth = index,
     group_children = [], group_isComponent = (int index = int len - 1),
     group_isRoot = (truthyStr r \<and> index = 0) \<rparr>"
  have unfold: "chainReduce sanitize r len soFar index (name # names) =
      chainReduce sanitize r len (soFar @ [result]) (Suc index) names"
    by (simp add: Let_def result_def parent_def)
  show ?case
  proof (cases j)
    case 0
    have at: "chainReduce sanitize r len (soFar @ [result]) (Suc index) names ! index = result"
      using Cons.prems(1) by (simp add: chainReduce_prefix)
    have prev: "index > 0 \<Longrightarrow>
        chainReduce sanitize r len (soFar @ [result]) (Suc index) names ! (index - 1) = soFar ! (index - 1)"
      using Cons.prems(1) by (simp add: chainReduce_prefix nth_append)
    show ?thesis
      unfolding unfold Let_def using 0 at prev
      by (auto simp add: result_def parent_def idOf_def)
  next
    case (Suc j')
    have "let c = chainReduce sanitize r len (soFar @ [result]) (Suc index) names; g = c ! (Suc index + j') in
           group_name g = names ! j' \<and>
           group_parent g = (if Suc index + j' = 0 then JBool False else JStr (group_id (c ! (Suc index + j' - 1)))) \<and>
           group_id g = idOf sanitize (group_parent g) (group_name g) \<and>
           group_depth g = Suc index + j' \<and>
           group_isComponent g = (int (Suc index + j') = int len - 1) \<and>
           group_isRoot g = (truthyStr r \<and> Suc index + j' = 0) \<and>
           group_children g = []"
      using Cons.IH[of "Suc index" "soFar @ [result]" j'] Cons.prems Suc by simp
    then show ?thesis unfolding unfold using Suc by (simp add: Let_def)
  qed
qed

lemma splitPath_bar_Button:
  "splitPath ''|Button'' defaultRootSeparator defaultGroupSeparator = \<lparr> root = Some [], groups = [''Button''] \<rparr>"
  by (simp add: splitPath_def jsSplit_def defaultGroupSeparator_def defaultRootSeparator_def
      exec_charClass splitLoop.simps Let_def substring_def nthOpt_def)

text \<open>
  C6, as stated, fails: the path \<^verbatim>\<open>|Button\<close> splits into the root \<^verbatim>\<open>""\<close>, which is not
  \<^verbatim>\<open>null\<close>, and the group \<^verbatim>\<open>Button\<close>. The chain has the one segment \<^verbatim>\<open>Button\<close>, and at index 0
  \<^verbatim>\<open>isRoot\<close> is false (\<^verbatim>\<open>!!root\<close> is false for the empty string) and \<^verbatim>\<open>parent\<close> is the boolean
  \<^verbatim>\<open>false\<close>, not \<^verbatim>\<open>null\<close>.
\<close>

theorem buildChain_fields_counterexample:
  "root (splitPath ''|Button'' defaultRootSeparator defaultGroupSeparator) \<noteq> None \<and>
   chainNames (splitPath ''|Button'' defaultRootSeparator defaultGroupSeparator) = [''Button''] \<and>
   \<not> group_isRoot (buildChain specSanitize (splitPath ''|Button'' defaultRootSeparator defaultGroupSeparator) ! 0) \<and>
   group_parent (buildChain specSanitize (splitPath ''|Button'' defaultRootSeparator defaultGroupSeparator) ! 0)
     = JBool False \<and>
   JBool False \<noteq> JNull"
  by (simp add: splitPath_bar_Button buildChain_def chainNames_def)

text \<open>
  C6, amended: the segments of the chain of a split result (root, groups) are the root, when
  it is a non-empty string, followed by the groups. With at least one segment, the chain
  has one group per segment and at each index \<open>i\<close>: the name is the segment; the parent is
  the identifier of the previous group, or the boolean \<^verbatim>\<open>false\<close> at \<open>i = 0\<close>; the identifier is
  the id synthesis \<open>idOf\<close> applied to (parent, name); the depth is \<open>i\<close>; \<^verbatim>\<open>isComponent\<close> holds exactly
  when \<open>i\<close> is the last index; \<^verbatim>\<open>isRoot\<close> holds exactly when the root is a non-empty string and
  \<open>i = 0\<close>; and \<^verbatim>\<open>children\<close> is empty.
\<close>

theorem buildChain_fields:
  assumes "i < length (chainNames sp)"
  shows "chainNames sp = (if root sp \<noteq> None \<and> root sp \<noteq> Some [] then [the (root sp)] else []) @ groups sp \<and>
         length (buildChain sanitize sp) = length (chainNames sp) \<and>
         group_name (buildChain sanitize sp ! i) = chainNames sp ! i \<and>
         group_parent (buildChain sanitize sp ! i) =
           (if i = 0 then JBool False else JStr (group_id (buildChain sanitize sp ! (i - 1)))) \<and>
         group_id (buildChain sanitize sp ! i) =
           idOf sanitize (group_parent (buildChain sanitize sp ! i)) (group_name (buildChain sanitize sp ! i)) \<and>
         group_depth (buildChain sanitize sp ! i) = i \<and>
         group_isComponent (buildChain sanitize sp ! i) = (i = length (chainNames sp) - 1) \<and>
         group_isRoot (buildChain sanitize sp ! i) = (root sp \<noteq> None \<and> root sp \<noteq> Some [] \<and> i = 0) \<and>
         group_children (buildChain sanitize sp ! i) = []"
    (is "?N \<and> ?R")
proof -
  have t: "truthyStr (root sp) = (root sp \<noteq> None \<and> root sp \<noteq> Some [])"
    by (cases "root sp") auto
  have c: "(int i = int (length (chainNames sp)) - 1) = (i = length (chainNames sp) - 1)"
    using assms by auto
  have n: ?N
    unfolding chainNames_def t by simp
  have r: ?R
    using chainReduce_nth[of 0 "[]" i "chainNames sp" sanitize "root sp" "length (chainNames sp)"] assms
    unfolding buildChain_def Let_def
    by (simp add: chainReduce_length t c)
  from n r show ?thesis by (rule conjI)
qed

theorem buildChain_fields_witness:
  "(1::nat) < length (chainNames \<lparr> root = Some ''Root'', groups = [''A'', ''B''] \<rparr>) \<and>
   chainNames \<lparr> root = Some ''Root'', groups = [''A'', ''B''] \<rparr> = [''Root'', ''A'', ''B''] \<and>
   length (buildChain specSanitize \<lparr> root = Some ''Root'', groups = [''A'', ''B''] \<rparr>) = 3 \<and>
   group_name (buildChain specSanitize \<lparr> root = Some ''Root'', groups = [''A'', ''B''] \<rparr> ! 1) = ''A'' \<and>
   group_depth (buildChain specSanitize \<lparr> root = Some ''Root'', groups = [''A'', ''B''] \<rparr> ! 1) = 1 \<and>
   \<not> group_isComponent (buildChain specSanitize \<lparr> root = Some ''Root'', groups = [''A'', ''B''] \<rparr> ! 1) \<and>
   \<not> group_isRoot (buildChain specSanitize \<lparr> root = Some ''Root'', groups = [''A'', ''B''] \<rparr> ! 1)"
  using buildChain_fields [of 1 "\<lparr> root = Some ''Root'', groups = [''A'', ''B''] \<rparr>" specSanitize]
  by (simp add: chainNames_def)

section \<open>Navigation and lookup leave the store as it is (C10)\<close>

text \<open>
  C10: \<^verbatim>\<open>jumpToStory\<close>, \<^verbatim>\<open>jumpToComponent\<close>, \<^verbatim>\<open>getData\<close> and \<^verbatim>\<open>getParameters\<close> never change the
  store: for every starting state, whatever the arguments and whether the call returns or
  throws, the state after the call is the state before it.
\<close>

theorem navigation_and_lookup_frame:
  "final (jumpToStory direction s) = s \<and> final (jumpToComponent direction s) = s \<and>
   final (getData sid s) = s \<and> final (getParameters sid parameterName s) = s"
proof (intro conjI)
  show "final (jumpToStory direction s) = s"
    by (simp add: jumpToStory_def Let_def)
  show "final (jumpToComponent direction s) = s"
    by (simp add: jumpToComponent_def Let_def split: sum.splits option.splits)
  show "final (getData sid s) = s"
    by (simp add: getData_def)
  show "final (getParameters sid parameterName s) = s"
    by (simp add: getParameters_def getData_def Let_def)
qed

theorem navigation_and_lookup_frame_witness:
  "navigated (jumpToStory 1 (exampleState (Some ''ui--a'') (Some ''story''))) = [''/story/ui--b''] \<and>
   final (jumpToStory 1 (exampleState (Some ''ui--a'') (Some ''story''))) = exampleState (Some ''ui--a'') (Some ''story'') \<and>
   final (jumpToComponent 1 (exampleState (Some ''ui--a'') (Some ''story''))) = exampleState (Some ''ui--a'') (Some ''story'') \<and>
   returned (getParameters ''ui--a'' (Some ''filename'') (exampleState (Some ''ui--a'') (Some ''story'')))
     = Inr (JStr ''stories.js'') \<and>
   final (getData ''ui--a'' (exampleState (Some ''ui--a'') (Some ''story''))) = exampleState (Some ''ui--a'') (Some ''story'') \<and>
   final (getParameters ''ui--a'' (Some ''filename'') (exampleState (Some ''ui--a'') (Some ''story'')))
     = exampleState (Some ''ui--a'') (Some ''story'')"
  using navigation_and_lookup_frame [of 1 "exampleState (Some ''ui--a'') (Some ''story'')" "''ui--a''" "Some ''filename''"]
  by (simp add: jumpToStory_def exampleState_def exampleHash_def leafKeys_def entryAt_def indexOf_def nthAt_def
      getParameters_def getData_def isStory_def hashGet_def Let_def)

section \<open>Keys of a mapping\<close>











section \<open>Evaluation of setStories\<close>

text \<open>The definitions without their local bindings, for the evaluation of concrete batches.\<close>

lemma addGroups_Cons:
  "addGroups acc paths index (g # gs) =
     addGroups (hashSet acc (group_id g)
                  (merge (sourceProps (entryOrEmpty acc (group_id g)))
                     (groupObj g (if index + 1 < length paths then Some (paths ! (index + 1)) else None))))
       paths (Suc index) gs"
  by (simp add: Let_def)

lemma storyStep_eval:
  "storyStep sanitize acc item =
     (if buildChain sanitize (splitPath (story_kind item) (hierarchyRootSeparator (story_parameters item))
                 (hierarchySeparator (story_parameters item))) = [] then Inl TypeError
      else Inr (hashSet
                 (addGroups acc
                    (map group_id (buildChain sanitize (splitPath (story_kind item)
                       (hierarchyRootSeparator (story_parameters item))
                       (hierarchySeparator (story_parameters item)))) @ [story_id item]) 0
                    (buildChain sanitize (splitPath (story_kind item)
                       (hierarchyRootSeparator (story_parameters item))
                       (hierarchySeparator (story_parameters item)))))
                 (story_id item)
                 (storyObj item (group_id (last (buildChain sanitize (splitPath (story_kind item)
                       (hierarchyRootSeparator (story_parameters item))
                       (hierarchySeparator (story_parameters item)))))))))"
  by (simp add: storyStep_def Let_def)

lemmas eval_obj = merge_def assignMergeValue_def customizer_def setKey_def keyPrecedes_def isArrayIndex_def
  digitChars_def groupObj_def storyObj_def entryOrEmpty_def pushMissing_def Let_def
  isArrayLikeObject_def nthJs_def assignMergeElem_def setNth_def copyArray_def addGroups_Cons
  hashGet_def hashSet_def emptyHash_def inObject_def objectPrototypeGet_def objectPrototypeNames_def
  safeGet_def hiddenFromSafeGet_def

lemmas eval_split = splitPath_def jsSplit_def defaultGroupSeparator_def defaultRootSeparator_def
  exec_charClass splitLoop.simps Let_def substring_def nthOpt_def

lemmas eval_sanitize = specSanitize_def lowerChar_def isAlnum_def

lemma setStories_success:
  "reduceStories sanitize emptyHash input = Inr hash \<Longrightarrow>
   returned (setStories sanitize input s) = Inr () \<and>
   final (setStories sanitize input s) = s\<lparr> storiesHash := hash \<rparr>"
  by (simp add: setStories_def)

lemma splitPath_UI:
  "splitPath ''UI'' defaultRootSeparator defaultGroupSeparator = \<lparr> root = None, groups = [''UI''] \<rparr>"
  by (simp add: eval_split)

lemma reduce_UI:
  "reduceStories specSanitize emptyHash [exampleStory ''ui--a'' ''A'' ''UI''] = Inr oneHash"
  by (simp add: storyStep_eval exampleStory_def splitPath_UI buildChain_def chainNames_def eval_sanitize
      exampleParameters_def eval_obj oneHash_def del: addGroups.simps(2))

section \<open>What setStories keeps true of the mapping\<close>
















section \<open>What the mapping holds at a name\<close>











section \<open>The navigation of setStories (C7)\<close>




section \<open>The batches of the examples\<close>

lemma splitPath_Docs:
  "splitPath ''Docs'' defaultRootSeparator defaultGroupSeparator = \<lparr> root = None, groups = [''Docs''] \<rparr>"
  by (simp add: eval_split)

lemma reduce_Docs:
  "reduceStories specSanitize emptyHash [exampleStory ''docs--b'' ''B'' ''Docs''] = Inr docsHash"
  by (simp add: storyStep_eval exampleStory_def splitPath_Docs buildChain_def chainNames_def eval_sanitize
      exampleParameters_def eval_obj docsHash_def del: addGroups.simps(2))

lemma splitPath_UI_Button:
  "splitPath ''UI/Button'' defaultRootSeparator defaultGroupSeparator = \<lparr> root = None, groups = [''UI'', ''Button''] \<rparr>"
  by (simp add: eval_split)

lemma splitPath_UI_Input:
  "splitPath ''UI/Input'' defaultRootSeparator defaultGroupSeparator = \<lparr> root = None, groups = [''UI'', ''Input''] \<rparr>"
  by (simp add: eval_split)

lemma chain_Button:
  assumes "sanitize ''UI'' = ''ui''" "sanitize ''ui-Button'' = ''ui-button''"
  shows "buildChain sanitize \<lparr> root = None, groups = [''UI'', ''Button''] \<rparr> =
     [\<lparr> group_name = ''UI'', group_id = ''ui'', group_parent = JBool False, group_depth = 0,
        group_children = [], group_isComponent = False, group_isRoot = False \<rparr>,
      \<lparr> group_name = ''Button'', group_id = ''ui-button'', group_parent = JStr ''ui'', group_depth = 1,
        group_children = [], group_isComponent = True, group_isRoot = False \<rparr>]"
  using assms by (simp add: buildChain_def chainNames_def Let_def)

lemma chain_Input:
  assumes "sanitize ''UI'' = ''ui''" "sanitize ''ui-Input'' = ''ui-input''"
  shows "buildChain sanitize \<lparr> root = None, groups = [''UI'', ''Input''] \<rparr> =
     [\<lparr> group_name = ''UI'', group_id = ''ui'', group_parent = JBool False, group_depth = 0,
        group_children = [], group_isComponent = False, group_isRoot = False \<rparr>,
      \<lparr> group_name = ''Input'', group_id = ''ui-input'', group_parent = JStr ''ui'', group_depth = 1,
        group_children = [], group_isComponent = True, group_isRoot = False \<rparr>]"
  using assms by (simp add: buildChain_def chainNames_def Let_def)

lemma step_Button:
  assumes "sanitize ''UI'' = ''ui''" "sanitize ''ui-Button'' = ''ui-button''"
  shows "storyStep sanitize emptyHash (exampleStory ''ui-button--a'' ''A'' ''UI/Button'') = Inr scenarioHash1"
  by (simp add: storyStep_eval exampleStory_def exampleParameters_def splitPath_UI_Button chain_Button[OF assms]
       eval_obj scenarioHash1_def del: addGroups.simps(2))

lemma step_Input:
  assumes "sanitize ''UI'' = ''ui''" "sanitize ''ui-Input'' = ''ui-input''"
  shows "storyStep sanitize scenarioHash1 (exampleStory ''ui-input--a'' ''A'' ''UI/Input'') = Inr scenarioHash"
  by (simp add: storyStep_eval exampleStory_def exampleParameters_def splitPath_UI_Input chain_Input[OF assms]
       eval_obj scenarioHash1_def scenarioHash_def del: addGroups.simps(2))

lemma reduce_scenario:
  assumes "sanitize ''UI'' = ''ui''" "sanitize ''ui-Button'' = ''ui-button''" "sanitize ''ui-Input'' = ''ui-input''"
  shows "reduceStories sanitize emptyHash
           [exampleStory ''ui-button--a'' ''A'' ''UI/Button'', exampleStory ''ui-input--a'' ''A'' ''UI/Input'']
         = Inr scenarioHash"
  by (simp add: step_Button[OF assms(1,2)] step_Input[OF assms(1,3)])

lemma specSanitize_scenario:
  "specSanitize ''UI'' = ''ui''" "specSanitize ''ui-Button'' = ''ui-button''" "specSanitize ''ui-Input'' = ''ui-input''"
  by (simp_all add: eval_sanitize)

section \<open>The scenario of two records under one group (C9)\<close>

text \<open>
  C9, as stated, fails: the whole path of a record is split into groups, so the records
  with the paths \<^verbatim>\<open>UI/Button\<close> and \<^verbatim>\<open>UI/Input\<close> give three groups, \<^verbatim>\<open>ui\<close>, \<^verbatim>\<open>ui-button\<close> and
  \<^verbatim>\<open>ui-input\<close>. The group \<^verbatim>\<open>ui\<close> is not a component (its children are the two other groups),
  and the parent of each leaf is \<^verbatim>\<open>ui-button\<close> or \<^verbatim>\<open>ui-input\<close>, not \<^verbatim>\<open>ui\<close>.
\<close>

theorem scenario_UI_counterexample:
  "storiesHash (final (setStories specSanitize
      [exampleStory ''ui-button--a'' ''A'' ''UI/Button'', exampleStory ''ui-input--a'' ''A'' ''UI/Input'']
      (emptyState None (Some ''story'')))) = scenarioHash \<and>
   lookupKey (entryAt (entries scenarioHash) ''ui'') ''isComponent'' = JBool False \<and>
   lookupKey (entryAt (entries scenarioHash) ''ui-button--a'') ''parent'' = JStr ''ui-button'' \<and>
   lookupKey (entryAt (entries scenarioHash) ''ui-input--a'') ''parent'' = JStr ''ui-input'' \<and>
   map fst (filter (\<lambda>(k, e). truthy (lookupKey e ''children'')) (entries scenarioHash))
     = [''ui'', ''ui-button'', ''ui-input'']"
proof -
  have "storiesHash (final (setStories specSanitize
      [exampleStory ''ui-button--a'' ''A'' ''UI/Button'', exampleStory ''ui-input--a'' ''A'' ''UI/Input'']
      (emptyState None (Some ''story'')))) = scenarioHash"
    using setStories_success[OF reduce_scenario[OF specSanitize_scenario], of "emptyState None (Some ''story'')"] by simp
  then show ?thesis by (simp add: scenarioHash_def entryAt_def)
qed

text \<open>
  C9, amended: registering in a single \<^verbatim>\<open>setStories\<close> batch, with the default separators and an
  id sanitizer that maps \<^verbatim>\<open>UI\<close>, \<^verbatim>\<open>ui-Button\<close> and \<^verbatim>\<open>ui-Input\<close> to \<^verbatim>\<open>ui\<close>, \<^verbatim>\<open>ui-button\<close> and
  \<^verbatim>\<open>ui-input\<close>, two leaf records whose paths are \<^verbatim>\<open>UI/Button\<close> and \<^verbatim>\<open>UI/Input\<close> produces the
  mapping \<open>scenarioHash\<close>: the Group \<^verbatim>\<open>ui\<close> with the two children \<^verbatim>\<open>ui-button\<close> and \<^verbatim>\<open>ui-input\<close>,
  \<^verbatim>\<open>isComponent = false\<close> and \<^verbatim>\<open>isRoot = false\<close>; the component Groups \<^verbatim>\<open>ui-button\<close> and \<^verbatim>\<open>ui-input\<close>,
  each with the parent \<^verbatim>\<open>ui\<close>, depth 1 and its leaf as the one child; and the two Leaf entries,
  with the parents \<^verbatim>\<open>ui-button\<close> and \<^verbatim>\<open>ui-input\<close>.
\<close>

theorem scenario_UI:
  assumes "sanitize ''UI'' = ''ui''" "sanitize ''ui-Button'' = ''ui-button''" "sanitize ''ui-Input'' = ''ui-input''"
  shows "returned (setStories sanitize
            [exampleStory ''ui-button--a'' ''A'' ''UI/Button'', exampleStory ''ui-input--a'' ''A'' ''UI/Input''] s) = Inr () \<and>
         storiesHash (final (setStories sanitize
            [exampleStory ''ui-button--a'' ''A'' ''UI/Button'', exampleStory ''ui-input--a'' ''A'' ''UI/Input''] s)) = scenarioHash"
  using setStories_success[OF reduce_scenario[OF assms], of s] by simp


theorem scenario_UI_witness:
  "specSanitize ''UI'' = ''ui'' \<and> specSanitize ''ui-Button'' = ''ui-button'' \<and> specSanitize ''ui-Input'' = ''ui-input'' \<and>
   map fst (entries (storiesHash (final (setStories specSanitize
            [exampleStory ''ui-button--a'' ''A'' ''UI/Button'', exampleStory ''ui-input--a'' ''A'' ''UI/Input'']
            (emptyState None (Some ''story'')))))) = [''ui'', ''ui-button'', ''ui-button--a'', ''ui-input'', ''ui-input--a'']"
  using scenario_UI [OF specSanitize_scenario, of "emptyState None (Some ''story'')"]
  by (simp add: specSanitize_scenario scenarioHash_def)

section \<open>The mapping across calls (C1)\<close>

lemma hashSet_grows: "hasKey (entries acc) k \<Longrightarrow> hasKey (entries (hashSet acc k' e)) k"
  by (simp add: hashSet_def hasKey_setKey)

lemma addGroups_grows: "hasKey (entries acc) k \<Longrightarrow> hasKey (entries (addGroups acc paths index gs)) k"
  by (induction gs arbitrary: acc index) (simp_all add: Let_def hashSet_grows)

lemma storyStep_grows:
  "storyStep sanitize acc item = Inr acc' \<Longrightarrow> hasKey (entries acc) k \<Longrightarrow> hasKey (entries acc') k"
  by (auto simp add: storyStep_def Let_def hashSet_grows addGroups_grows split: if_splits)

lemma reduceStories_grows:
  "reduceStories sanitize acc items = Inr acc' \<Longrightarrow> hasKey (entries acc) k \<Longrightarrow> hasKey (entries acc') k"
proof (induction items arbitrary: acc)
  case Nil
  then show ?case by simp
next
  case (Cons item items)
  then show ?case by (auto split: sum.splits dest: storyStep_grows)
qed

lemma reduceStories_append:
  "reduceStories sanitize acc (xs @ ys) =
     (case reduceStories sanitize acc xs of Inl e \<Rightarrow> Inl e | Inr acc' \<Rightarrow> reduceStories sanitize acc' ys)"
  by (induction xs arbitrary: acc) (auto split: sum.splits)

text \<open>
  C1, as stated, fails: after \<^verbatim>\<open>setStories\<close> of a record of the kind \<^verbatim>\<open>UI\<close> the Group \<^verbatim>\<open>ui\<close> is a
  key of the persisted mapping, and after a second \<^verbatim>\<open>setStories\<close>, of a record of the kind
  \<^verbatim>\<open>Docs\<close>, it is not: each call builds its mapping from the empty object and puts it in the
  place of the persisted one.
\<close>

theorem setStories_rebuilds_counterexample:
  "hasKey (entries (storiesHash (final (setStories specSanitize [exampleStory ''ui--a'' ''A'' ''UI''] (emptyState None None))))) ''ui'' \<and>
   truthy (lookupKey (entryAt (entries (storiesHash (final (setStories specSanitize [exampleStory ''ui--a'' ''A'' ''UI''] (emptyState None None))))) ''ui'') ''children'') \<and>
   returned (setStories specSanitize [exampleStory ''docs--b'' ''B'' ''Docs'']
      (final (setStories specSanitize [exampleStory ''ui--a'' ''A'' ''UI''] (emptyState None None)))) = Inr () \<and>
   \<not> hasKey (entries (storiesHash (final (setStories specSanitize [exampleStory ''docs--b'' ''B'' ''Docs'']
      (final (setStories specSanitize [exampleStory ''ui--a'' ''A'' ''UI''] (emptyState None None))))))) ''ui''"
  by (simp add: setStories_success[OF reduce_UI] setStories_success[OF reduce_Docs] oneHash_def docsHash_def entryAt_def)

text \<open>
  C1, amended: within one call of \<^verbatim>\<open>setStories\<close> the mapping only grows: every identifier that
  is a key of the mapping accumulated after a part \<open>pre\<close> of the batch is still a key of the
  mapping the call persists, since the chain of each record is folded into the mapping
  accumulated so far in that call. Across calls nothing is kept: the mapping persisted by
  a call that returns is the one built from its batch alone, whatever mapping \<open>previous\<close>
  was persisted before, so a Group of an earlier call is still a key only when the later
  batch produces it again.
\<close>

theorem setStories_rebuilds:
  assumes "returned (setStories sanitize (pre @ post) s) = Inr ()"
  shows "\<exists>hash h1. reduceStories sanitize emptyHash (pre @ post) = Inr hash \<and>
           storiesHash (final (setStories sanitize (pre @ post) s)) = hash \<and>
           storiesHash (final (setStories sanitize (pre @ post) (s\<lparr> storiesHash := previous \<rparr>))) = hash \<and>
           reduceStories sanitize emptyHash pre = Inr h1 \<and>
           (\<forall>k. hasKey (entries h1) k \<longrightarrow> hasKey (entries hash) k)"
proof -
  from assms obtain hash where h: "reduceStories sanitize emptyHash (pre @ post) = Inr hash"
    by (auto simp add: setStories_def split: sum.splits)
  then obtain h1 where h1: "reduceStories sanitize emptyHash pre = Inr h1" and h2: "reduceStories sanitize h1 post = Inr hash"
    by (auto simp add: reduceStories_append split: sum.splits)
  have "\<forall>k. hasKey (entries h1) k \<longrightarrow> hasKey (entries hash) k" using reduceStories_grows[OF h2] by blast
  then show ?thesis using h h1 by (simp add: setStories_def)
qed


theorem setStories_rebuilds_witness:
  "returned (setStories specSanitize ([exampleStory ''ui-button--a'' ''A'' ''UI/Button''] @ [exampleStory ''ui-input--a'' ''A'' ''UI/Input''])
       (emptyState None None)) = Inr () \<and>
   storiesHash (final (setStories specSanitize ([exampleStory ''ui-button--a'' ''A'' ''UI/Button''] @ [exampleStory ''ui-input--a'' ''A'' ''UI/Input''])
       ((emptyState None None)\<lparr> storiesHash := oneHash \<rparr>))) =
   storiesHash (final (setStories specSanitize ([exampleStory ''ui-button--a'' ''A'' ''UI/Button''] @ [exampleStory ''ui-input--a'' ''A'' ''UI/Input''])
       (emptyState None None)))"
proof -
  have r: "returned (setStories specSanitize ([exampleStory ''ui-button--a'' ''A'' ''UI/Button''] @ [exampleStory ''ui-input--a'' ''A'' ''UI/Input''])
       (emptyState None None)) = Inr ()"
    using setStories_success[OF reduce_scenario[OF specSanitize_scenario], of "emptyState None None"] by simp
  show ?thesis
    using setStories_rebuilds [OF r, of oneHash] r by metis
qed

section \<open>jumpToComponent from a selected group (C8)\<close>

text \<open>
  C8: \<^verbatim>\<open>jumpToComponent\<close> should never raise. It does: after \<^verbatim>\<open>setStories\<close> of one record of the
  kind \<^verbatim>\<open>UI\<close>, with the group \<^verbatim>\<open>ui\<close> as the current selection, the selection is a key of the
  mapping and no child list of a component holds it, so \<^verbatim>\<open>index\<close> is \<open>-1\<close>; with the direction
  \<open>-1\<close> neither boundary test holds, \<^verbatim>\<open>lookupList[-2]\<close> is \<^verbatim>\<open>undefined\<close> and reading its element
  \<^verbatim>\<open>0\<close> throws. (\<^verbatim>\<open>jumpToStory\<close> guards the same read by \<^verbatim>\<open>viewMode && result\<close>.)
\<close>

theorem jumpToComponent_throws:
  "final (setStories specSanitize [exampleStory ''ui--a'' ''A'' ''UI''] (emptyState (Some ''ui'') (Some ''story'')))
     = \<lparr> storiesHash = oneHash, storyId = Some ''ui'', viewMode = Some ''story'' \<rparr> \<and>
   jumpToComponent (- 1) \<lparr> storiesHash = oneHash, storyId = Some ''ui'', viewMode = Some ''story'' \<rparr>
     = \<lparr> returned = Inl TypeError, navigated = [],
         final = \<lparr> storiesHash = oneHash, storyId = Some ''ui'', viewMode = Some ''story'' \<rparr> \<rparr>"
  by (simp add: setStories_success[OF reduce_UI] emptyState_def jumpToComponent_def oneHash_def spreadJs_def nthAt_def
      hashGet_def)


theorem jumpToComponent_throws_witness:
  "returned (jumpToComponent (- 1) \<lparr> storiesHash = oneHash, storyId = Some ''ui'', viewMode = Some ''story'' \<rparr>)
     \<noteq> Inr ()"
  using jumpToComponent_throws by simp

section \<open>The walk over the leaves (C2)\<close>

















end
